theory Spec2Isabelle
  imports Main "HOL-Library.Sublist" "HOL-Library.Multiset"
begin

section \<open>Strings and JavaScript value conventions\<close>

text \<open>
  The dashboard pages are JavaScript (React) modules. Strings are modelled as
  \<^typ>\<open>string\<close>. Where the code treats \<^verbatim>\<open>undefined\<close> and \<^verbatim>\<open>null\<close> alike (\<^verbatim>\<open>!x\<close>,
  \<^verbatim>\<open>x || d\<close>, \<^verbatim>\<open>x?.f\<close>), a field that may be either is an \<^typ>\<open>'a option\<close> with
  \<^term>\<open>None\<close> for both. A JavaScript string is falsy exactly when it is missing or empty.
  A character stands for a UTF-16 code unit below 256.
\<close>

text \<open>
  A field that the code also prints in a template literal or uses as a property key keeps
  the two apart, since \<^verbatim>\<open>undefined\<close> prints as \<open>undefined\<close> and \<^verbatim>\<open>null\<close> as \<open>null\<close>.
\<close>

datatype 'a nullable = Undefined | Null | Value 'a

text \<open>The value of such a field where only its presence matters.\<close>

definition present :: "'a nullable \<Rightarrow> 'a option" where
  "present x = (case x of Undefined \<Rightarrow> None | Null \<Rightarrow> None | Value v \<Rightarrow> Some v)"

text \<open>Reading a property of \<^verbatim>\<open>undefined\<close> or \<^verbatim>\<open>null\<close> throws a \<^verbatim>\<open>TypeError\<close>.\<close>

datatype error = TypeError

definition truthy_str :: "string option \<Rightarrow> bool" where
  "truthy_str x = (case x of None \<Rightarrow> False | Some s \<Rightarrow> s \<noteq> [])"

text \<open>\<^verbatim>\<open>x || d\<close> for a string-valued \<^verbatim>\<open>x\<close> and a string default \<^verbatim>\<open>d\<close>.\<close>

definition or_str :: "string option \<Rightarrow> string \<Rightarrow> string" where
  "or_str x d = (case x of None \<Rightarrow> d | Some s \<Rightarrow> if s = [] then d else s)"

text \<open>\<^verbatim>\<open>x || y\<close> where both sides may be missing.\<close>

definition or_opt :: "string option \<Rightarrow> string option \<Rightarrow> string option" where
  "or_opt x y = (if truthy_str x then x else y)"

subsection \<open>truncateText\<close>

text \<open>
  \<^verbatim>\<open>
  const truncateText = (text, maxLength) => {
    if (!text) return 'No text available';
    if (text.length <= maxLength) return text;
    return text.substring(0, maxLength) + '...';
  };
  \<close>
  \<^verbatim>\<open>substring(0, maxLength)\<close> clamps a negative end index to 0, which is what
  \<^term>\<open>nat\<close> does.
\<close>

definition truncateText :: "string option \<Rightarrow> int \<Rightarrow> string" where
  "truncateText text maxLength =
     (case text of
        None \<Rightarrow> ''No text available''
      | Some t \<Rightarrow>
          if t = [] then ''No text available''
          else if int (length t) \<le> maxLength then t
          else take (nat maxLength) t @ ''...'')"

section \<open>The analysis payload\<close>

text \<open>
  Scores are IEEE doubles; the pipeline never computes with them beyond a truthiness test
  and two renderings, so the number type is a parameter \<open>'n\<close> and the three operations
  the pages apply to a score are passed in: \<^verbatim>\<open>x ? .. : ..\<close> (a number is truthy unless
  it is zero or NaN), the template rendering \<^verbatim>\<open>`${x}`\<close>, and
  \<^verbatim>\<open>(x * 100).toFixed(1)\<close>.
\<close>

record 'n number_ops =
  num_truthy :: "'n \<Rightarrow> bool"
  num_show :: "'n \<Rightarrow> string"
  num_percent1 :: "'n \<Rightarrow> string"

record DisclosureMatch =
  disclosure_text :: "string option"
  is_strong_match :: bool

text \<open>An element of \<^verbatim>\<open>matched_disclosures\<close> (its \<^verbatim>\<open>disclosure_text\<close> is \<open>md_disclosure_text\<close>).\<close>

record MatchedDisclosure =
  md_disclosure_id :: "string option"
  md_disclosure_text :: "string option"

record 'n RegulationMatch =
  regulation_id :: "string nullable"
  regulation_text :: "string option"
  best_match_score :: "'n nullable"
  matched_disclosures :: "MatchedDisclosure list option"

text \<open>\<^verbatim>\<open>metadata: {category, regulation_id}\<close> of a category.\<close>

record Metadata =
  meta_category :: "string option"
  meta_regulation_id :: "string nullable"

record 'n CoverageStatistics =
  total_regulations :: int
  fully_covered :: int
  coverage_percentage :: 'n

record 'n GapAnalysis =
  coverage_statistics :: "'n CoverageStatistics option"
  uncovered_regulations :: "'n RegulationMatch list option"
  partially_covered_regulations :: "'n RegulationMatch list option"
  covered_regulations :: "'n RegulationMatch list option"

record 'n CategoryData =
  metadata :: "Metadata option"
  disclosure_to_regulation_matches :: "DisclosureMatch list option"
  regulation_to_disclosure_matches :: "'n RegulationMatch list option"
  gap_analysis :: "'n GapAnalysis option"

text \<open>\<^verbatim>\<open>detailed_results\<close>: an object indexed by category name.\<close>

type_synonym 'n DetailedResults = "string \<rightharpoonup> 'n CategoryData"

record Summary =
  company_name :: "string option"
  report_year :: "string option"
  summary_regulation_id :: "string option"
  categories_analyzed :: "int option"

record 'n AnalysisData =
  summary :: "Summary option"
  detailed_results :: "'n DetailedResults option"

definition categories :: "string list" where
  "categories = [''environmental'', ''social'', ''governance'']"

section \<open>Disclosure sampler and statistics (both listings of the results page)\<close>

text \<open>
  \<^verbatim>\<open>
  const extractTopDisclosures = (categoryData) => {
    if (!categoryData || !categoryData.disclosure_to_regulation_matches) {
      return ['No disclosure data available'];
    }
    const strongMatches = categoryData.disclosure_to_regulation_matches
      .filter(match => match.is_strong_match)
      .slice(0, 4)
      .map(match => truncateText(match.disclosure_text, 80));
    if (strongMatches.length < 4) {
      const allMatches = categoryData.disclosure_to_regulation_matches
        .slice(0, 4)
        .map(match => truncateText(match.disclosure_text, 80));
      return allMatches;
    }
    return strongMatches.length > 0 ? strongMatches : ['No strong matches found'];
  };
  \<close>
  An empty array is truthy in JavaScript, so only a missing field takes the first branch.
\<close>

definition extractTopDisclosures :: "'n CategoryData option \<Rightarrow> string list" where
  "extractTopDisclosures categoryData =
     (case categoryData of
        None \<Rightarrow> [''No disclosure data available'']
      | Some cd \<Rightarrow>
          (case disclosure_to_regulation_matches cd of
             None \<Rightarrow> [''No disclosure data available'']
           | Some ms \<Rightarrow>
               (let strongMatches =
                      map (\<lambda>m. truncateText (disclosure_text m) 80)
                        (take 4 (filter is_strong_match ms))
                in if length strongMatches < 4
                   then map (\<lambda>m. truncateText (disclosure_text m) 80) (take 4 ms)
                   else if length strongMatches > 0 then strongMatches
                   else [''No strong matches found''])))"

record 'n CategoryStats =
  total :: int
  covered :: int
  coverage :: 'n

text \<open>
  \<^verbatim>\<open>
  const extractCategoryStats = (categoryData) => {
    if (!categoryData || !categoryData.gap_analysis) {
      return null;
    }
    const stats = categoryData.gap_analysis.coverage_statistics;
    return {
      total: stats.total_regulations,
      covered: stats.fully_covered,
      coverage: stats.coverage_percentage
    };
  };
  \<close>
  Without \<^verbatim>\<open>coverage_statistics\<close> the read of \<^verbatim>\<open>stats.total_regulations\<close> throws.
\<close>

definition extractCategoryStats :: "'n CategoryData option \<Rightarrow> error + 'n CategoryStats option" where
  "extractCategoryStats categoryData =
     (case categoryData of
        None \<Rightarrow> Inr None
      | Some cd \<Rightarrow>
          (case gap_analysis cd of
             None \<Rightarrow> Inr None
           | Some ga \<Rightarrow>
               (case coverage_statistics ga of
                  None \<Rightarrow> Inl TypeError
                | Some stats \<Rightarrow>
                    Inr (Some \<lparr>total = total_regulations stats,
                               covered = fully_covered stats,
                               coverage = coverage_percentage stats\<rparr>))))"

section \<open>Gap aggregation, first listing (capped, numbered, sorted)\<close>

text \<open>
  The source file holds two listings of the results page. The first one (lines 1--416)
  builds at most six numbered items per category, sorts them by status and keeps ten;
  the second one (lines 417--934) builds one spreadsheet row per regulation. Their
  functions of the same name are told apart here by the suffixes \<open>1\<close> and \<open>2\<close>.
\<close>

text \<open>An item of the first listing (\<^verbatim>\<open>id\<close>, \<^verbatim>\<open>status\<close>, \<^verbatim>\<open>category\<close> and \<^verbatim>\<open>score\<close> carry the prefix \<open>item_\<close>).\<close>

record 'n GapItem =
  item_id :: string
  gap :: string
  expectation :: string
  item_status :: string
  item_category :: string
  item_score :: "'n nullable"

text \<open>\<^verbatim>\<open>Number.prototype.toString\<close> on a non-negative integer: its decimal digits.\<close>

definition digit_char :: "nat \<Rightarrow> char" where
  "digit_char d = char_of (48 + d)"

fun toString :: "nat \<Rightarrow> string" where
  "toString n = (if n < 10 then [digit_char n] else toString (n div 10) @ [digit_char (n mod 10)])"

declare toString.simps [simp del]

text \<open>
  What a template literal prints, and what a property key reads, for a value that may be
  \<^verbatim>\<open>undefined\<close> or \<^verbatim>\<open>null\<close>.
\<close>

definition template_str :: "string nullable \<Rightarrow> string" where
  "template_str x =
     (case x of Undefined \<Rightarrow> ''undefined'' | Null \<Rightarrow> ''null'' | Value s \<Rightarrow> s)"

definition template_num :: "'n number_ops \<Rightarrow> 'n nullable \<Rightarrow> string" where
  "template_num ops x =
     (case x of Undefined \<Rightarrow> ''undefined'' | Null \<Rightarrow> ''null'' | Value v \<Rightarrow> num_show ops v)"

text \<open>
  The first listing reads \<^verbatim>\<open>categoryData.metadata.regulation_id\<close> without a guard, which
  throws when the category has no metadata.
\<close>

text \<open>
  The body of the three \<^verbatim>\<open>forEach\<close> callbacks, which differ in the status only:
  \<^verbatim>\<open>
  gaps.push({
    id: (gapId++).toString(),
    gap: truncateText(reg.regulation_text, 60),
    expectation: `${categoryData.metadata.regulation_id} requirement - Coverage score: ${reg.best_match_score}`,
    status: 'missing',
    category: category,
    score: reg.best_match_score
  });
  \<close>
  The state is the array \<^verbatim>\<open>gaps\<close> and the counter \<^verbatim>\<open>gapId\<close>.
\<close>

type_synonym 'n gap_state = "'n GapItem list \<times> nat"

definition pushGap ::
  "'n number_ops \<Rightarrow> 'n CategoryData \<Rightarrow> string \<Rightarrow> string \<Rightarrow> 'n RegulationMatch
     \<Rightarrow> 'n gap_state \<Rightarrow> error + 'n gap_state" where
  "pushGap ops categoryData category status reg st =
     (case st of (gaps, gapId) \<Rightarrow>
        (case metadata categoryData of
           None \<Rightarrow> Inl TypeError
         | Some m \<Rightarrow>
             Inr (gaps @
                    [\<lparr>item_id = toString gapId,
                      gap = truncateText (regulation_text reg) 60,
                      expectation = template_str (meta_regulation_id m)
                        @ '' requirement - Coverage score: ''
                        @ template_num ops (best_match_score reg),
                      item_status = status,
                      item_category = category,
                      item_score = best_match_score reg\<rparr>],
                  gapId + 1)))"

fun pushGaps ::
  "'n number_ops \<Rightarrow> 'n CategoryData \<Rightarrow> string \<Rightarrow> string \<Rightarrow> 'n RegulationMatch list
     \<Rightarrow> 'n gap_state \<Rightarrow> error + 'n gap_state" where
  "pushGaps ops categoryData category status [] st = Inr st"
| "pushGaps ops categoryData category status (reg # regs) st =
     (case pushGap ops categoryData category status reg st of
        Inl e \<Rightarrow> Inl e
      | Inr st' \<Rightarrow> pushGaps ops categoryData category status regs st')"

text \<open>\<^verbatim>\<open>xs?.slice(0, k).forEach(..)\<close>: nothing happens when the array is missing.\<close>

definition pushFirst ::
  "'n number_ops \<Rightarrow> 'n CategoryData \<Rightarrow> string \<Rightarrow> string \<Rightarrow> nat
     \<Rightarrow> 'n RegulationMatch list option \<Rightarrow> 'n gap_state \<Rightarrow> error + 'n gap_state" where
  "pushFirst ops categoryData category status k regs st =
     (case regs of
        None \<Rightarrow> Inr st
      | Some rs \<Rightarrow> pushGaps ops categoryData category status (take k rs) st)"

text \<open>
  One round of \<^verbatim>\<open>['environmental', 'social', 'governance'].forEach(category => ..)\<close>:
  \<^verbatim>\<open>
  const categoryData = detailedResults[category];
  if (!categoryData || !categoryData.gap_analysis) return;
  const gapData = categoryData.gap_analysis;
  gapData.uncovered_regulations?.slice(0, 3).forEach(..'missing'..);
  gapData.partially_covered_regulations?.slice(0, 2).forEach(..'partial'..);
  gapData.covered_regulations?.slice(0, 1).forEach(..'complete'..);
  \<close>
\<close>

definition processCategory1 ::
  "'n number_ops \<Rightarrow> 'n DetailedResults \<Rightarrow> string \<Rightarrow> 'n gap_state \<Rightarrow> error + 'n gap_state" where
  "processCategory1 ops detailedResults category st =
     (case detailedResults category of
        None \<Rightarrow> Inr st
      | Some categoryData \<Rightarrow>
          (case gap_analysis categoryData of
             None \<Rightarrow> Inr st
           | Some gapData \<Rightarrow>
               (case pushFirst ops categoryData category ''missing'' 3
                       (uncovered_regulations gapData) st of
                  Inl e \<Rightarrow> Inl e
                | Inr st1 \<Rightarrow>
                    (case pushFirst ops categoryData category ''partial'' 2
                            (partially_covered_regulations gapData) st1 of
                       Inl e \<Rightarrow> Inl e
                     | Inr st2 \<Rightarrow>
                         pushFirst ops categoryData category ''complete'' 1
                           (covered_regulations gapData) st2))))"

fun processCategories1 ::
  "'n number_ops \<Rightarrow> 'n DetailedResults \<Rightarrow> string list \<Rightarrow> 'n gap_state \<Rightarrow> error + 'n gap_state" where
  "processCategories1 ops detailedResults [] st = Inr st"
| "processCategories1 ops detailedResults (category # cs) st =
     (case processCategory1 ops detailedResults category st of
        Inl e \<Rightarrow> Inl e
      | Inr st' \<Rightarrow> processCategories1 ops detailedResults cs st')"

text \<open>The array \<^verbatim>\<open>gaps\<close> as it stands before the sort: \<^verbatim>\<open>const gaps = []; let gapId = 1;\<close> and the loop.\<close>

definition collectGaps1 :: "'n number_ops \<Rightarrow> 'n DetailedResults \<Rightarrow> error + 'n gap_state" where
  "collectGaps1 ops detailedResults = processCategories1 ops detailedResults categories ([], 1)"

text \<open>
  \<^verbatim>\<open>
  const statusPriority = { missing: 1, partial: 2, complete: 3 };
  return gaps
    .sort((a, b) => statusPriority[a.status] - statusPriority[b.status])
    .slice(0, 10);
  \<close>
  A status that is not a key of \<^verbatim>\<open>statusPriority\<close> reads \<^verbatim>\<open>undefined\<close>, the difference is
  then \<^verbatim>\<open>NaN\<close>, and \<^verbatim>\<open>sort\<close> takes a \<^verbatim>\<open>NaN\<close> from its comparator for 0.
\<close>

definition statusPriority :: "string \<Rightarrow> int option" where
  "statusPriority s =
     (if s = ''missing'' then Some 1
      else if s = ''partial'' then Some 2
      else if s = ''complete'' then Some 3
      else None)"

definition compareStatus :: "'n GapItem \<Rightarrow> 'n GapItem \<Rightarrow> int" where
  "compareStatus a b =
     (case (statusPriority (item_status a), statusPriority (item_status b)) of
        (Some p, Some q) \<Rightarrow> p - q
      | _ \<Rightarrow> 0)"

text \<open>
  \<^verbatim>\<open>Array.prototype.sort\<close> with a comparator is a stable sort (ECMAScript 2019): an
  insertion sort that puts an element in front of the first later element that does not
  compare smaller. Where the comparator is not a consistent order the language leaves the
  result to the implementation; this model then still answers with the insertion sort.
\<close>

fun insert_by :: "('a \<Rightarrow> 'a \<Rightarrow> int) \<Rightarrow> 'a \<Rightarrow> 'a list \<Rightarrow> 'a list" where
  "insert_by cmp x [] = [x]"
| "insert_by cmp x (y # ys) = (if cmp x y \<le> 0 then x # y # ys else y # insert_by cmp x ys)"

definition sort_by :: "('a \<Rightarrow> 'a \<Rightarrow> int) \<Rightarrow> 'a list \<Rightarrow> 'a list" where
  "sort_by cmp xs = foldr (insert_by cmp) xs []"

definition extractGapAnalysis1 :: "'n number_ops \<Rightarrow> 'n DetailedResults \<Rightarrow> error + 'n GapItem list" where
  "extractGapAnalysis1 ops detailedResults =
     (case collectGaps1 ops detailedResults of
        Inl e \<Rightarrow> Inl e
      | Inr (gaps, gapId) \<Rightarrow> Inr (take 10 (sort_by compareStatus gaps)))"

section \<open>Gap aggregation, second listing (one row per regulation)\<close>

text \<open>An entry of \<^verbatim>\<open>regMap\<close>: \<^verbatim>\<open>{text, disclosureText, disclosureId, score}\<close>.\<close>

record RegEntry =
  entry_text :: "string option"
  entry_disclosureText :: string
  entry_disclosureId :: string
  entry_score :: string

text \<open>\<^verbatim>\<open>r.matched_disclosures?.[0]\<close>\<close>

definition firstDisclosure :: "'n RegulationMatch \<Rightarrow> MatchedDisclosure option" where
  "firstDisclosure r =
     (case matched_disclosures r of
        None \<Rightarrow> None
      | Some [] \<Rightarrow> None
      | Some (d # ds) \<Rightarrow> Some d)"

text \<open>
  \<^verbatim>\<open>
  regMap[r.regulation_id] = {
    text: r.regulation_text,
    disclosureText: r.matched_disclosures?.[0]?.disclosure_text || 'No matching disclosure found',
    disclosureId: r.matched_disclosures?.[0]?.disclosure_id || 'N/A',
    score: r.best_match_score ? (r.best_match_score * 100).toFixed(1) : 'N/A'
  };
  \<close>
  A \<^verbatim>\<open>regulation_id\<close> that is \<^verbatim>\<open>undefined\<close> or \<^verbatim>\<open>null\<close> indexes the object under the key
  \<^verbatim>\<open>"undefined"\<close> or \<^verbatim>\<open>"null"\<close>. The object is modelled by its own properties (inherited
  ones such as \<^verbatim>\<open>constructor\<close> are left out).
\<close>

definition regEntry :: "'n number_ops \<Rightarrow> 'n RegulationMatch \<Rightarrow> RegEntry" where
  "regEntry ops r =
     \<lparr>entry_text = regulation_text r,
      entry_disclosureText =
        or_str (case firstDisclosure r of None \<Rightarrow> None | Some d \<Rightarrow> md_disclosure_text d)
          ''No matching disclosure found'',
      entry_disclosureId =
        or_str (case firstDisclosure r of None \<Rightarrow> None | Some d \<Rightarrow> md_disclosure_id d) ''N/A'',
      entry_score =
        (case present (best_match_score r) of
           None \<Rightarrow> ''N/A''
         | Some v \<Rightarrow> if num_truthy ops v then num_percent1 ops v else ''N/A'')\<rparr>"

fun buildRegMap ::
  "'n number_ops \<Rightarrow> 'n RegulationMatch list \<Rightarrow> (string \<rightharpoonup> RegEntry) \<Rightarrow> (string \<rightharpoonup> RegEntry)" where
  "buildRegMap ops [] regMap = regMap"
| "buildRegMap ops (r # rs) regMap =
     buildRegMap ops rs (regMap(template_str (regulation_id r) \<mapsto> regEntry ops r))"

text \<open>A row of the second listing.\<close>

record GapRow =
  category :: string
  status :: string
  regulationId :: string
  frameworkText :: string
  disclosureId :: string
  disclosureText :: string
  regulationName :: string
  coverageScore :: string

text \<open>
  \<^verbatim>\<open>
  const makeRow = (regObj, status) => {
    const regId = regObj.regulation_id || 'N/A';
    const match = regMap[regId] || {};
    return {
      category: metadata.category || category,
      status,
      regulationId: regId,
      frameworkText: match.text || regObj.regulation_text || 'N/A',
      disclosureId: match.disclosureId || 'N/A',
      disclosureText: match.disclosureText || 'No matching disclosure found',
      regulationName: metadata.regulation_id || 'BRSR',
      coverageScore: match.score || 'N/A'
    };
  };
  \<close>
  with \<^verbatim>\<open>metadata = catData.metadata || {}\<close>.
\<close>

definition makeRow ::
  "Metadata option \<Rightarrow> string \<Rightarrow> (string \<rightharpoonup> RegEntry) \<Rightarrow> 'n RegulationMatch \<Rightarrow> string \<Rightarrow> GapRow" where
  "makeRow meta cat regMap regObj st =
     (let regId = or_str (present (regulation_id regObj)) ''N/A'';
          match = regMap regId
      in \<lparr>category = or_str (case meta of None \<Rightarrow> None | Some m \<Rightarrow> meta_category m) cat,
          status = st,
          regulationId = regId,
          frameworkText =
            or_str (or_opt (case match of None \<Rightarrow> None | Some e \<Rightarrow> entry_text e)
                      (regulation_text regObj)) ''N/A'',
          disclosureId = or_str (map_option entry_disclosureId match) ''N/A'',
          disclosureText =
            or_str (map_option entry_disclosureText match) ''No matching disclosure found'',
          regulationName =
            or_str (case meta of None \<Rightarrow> None | Some m \<Rightarrow> present (meta_regulation_id m))
              ''BRSR'',
          coverageScore = or_str (map_option entry_score match) ''N/A''\<rparr>)"

text \<open>\<^verbatim>\<open>xs || []\<close>\<close>

definition or_empty :: "'a list option \<Rightarrow> 'a list" where
  "or_empty xs = (case xs of None \<Rightarrow> [] | Some ys \<Rightarrow> ys)"

text \<open>
  The rows one category appends:
  \<^verbatim>\<open>
  const missing = (gap.uncovered_regulations || []).map(r => makeRow(r, 'MISSING'));
  const partial = (gap.partially_covered_regulations || []).map(r => makeRow(r, 'PARTIAL'));
  const covered = (gap.covered_regulations || []).map(r => makeRow(r, 'COVERED'));
  allRows = [...allRows, ...missing, ...partial, ...covered];
  \<close>
\<close>

definition categoryRows :: "'n number_ops \<Rightarrow> string \<Rightarrow> 'n CategoryData \<Rightarrow> 'n GapAnalysis \<Rightarrow> GapRow list" where
  "categoryRows ops cat catData gp =
     (let meta = metadata catData;
          regMatches = or_empty (regulation_to_disclosure_matches catData);
          regMap = buildRegMap ops regMatches Map.empty;
          missing = map (\<lambda>r. makeRow meta cat regMap r ''MISSING'') (or_empty (uncovered_regulations gp));
          partial = map (\<lambda>r. makeRow meta cat regMap r ''PARTIAL'')
                      (or_empty (partially_covered_regulations gp));
          covered = map (\<lambda>r. makeRow meta cat regMap r ''COVERED'') (or_empty (covered_regulations gp))
      in missing @ partial @ covered)"

definition processCategory2 ::
  "'n number_ops \<Rightarrow> 'n DetailedResults \<Rightarrow> GapRow list \<Rightarrow> string \<Rightarrow> GapRow list" where
  "processCategory2 ops detailedResults allRows cat =
     (case detailedResults cat of
        None \<Rightarrow> allRows
      | Some catData \<Rightarrow>
          (case gap_analysis catData of
             None \<Rightarrow> allRows
           | Some gp \<Rightarrow> allRows @ categoryRows ops cat catData gp))"

definition extractGapAnalysis2 :: "'n number_ops \<Rightarrow> 'n DetailedResults \<Rightarrow> GapRow list" where
  "extractGapAnalysis2 ops detailedResults =
     foldl (processCategory2 ops detailedResults) [] categories"

subsection \<open>loadAnalysisResults (second listing)\<close>

text \<open>The page's \<^verbatim>\<open>metadata\<close> state (its \<^verbatim>\<open>regulationId\<close> is \<open>regulationId_meta\<close>).\<close>

record PageMetadata =
  companyName :: string
  reportYear :: string
  regulationId_meta :: string
  categoriesAnalyzed :: int

text \<open>A bucket of \<^verbatim>\<open>formattedEsgData\<close> (the colour classes are left out).\<close>

record 'n Bucket =
  bucket_category :: string
  title :: string
  segments :: "string list"
  stats :: "'n CategoryStats option"

text \<open>The component state that \<^verbatim>\<open>loadAnalysisResults\<close> writes (\<^verbatim>\<open>metadata\<close> is \<open>pageMetadata\<close>).\<close>

record 'n Dashboard =
  esgData :: "'n Bucket list option"
  gapAnalysis :: "GapRow list"
  completeGapAnalysis :: "GapRow list"
  pageMetadata :: "PageMetadata option"
  loading :: bool

definition initialDashboard :: "'n Dashboard" where
  "initialDashboard =
     \<lparr>esgData = None, gapAnalysis = [], completeGapAnalysis = [],
      pageMetadata = None, loading = True\<rparr>"

text \<open>\<^verbatim>\<open>analysisData.summary?.f\<close>\<close>

definition summary_field :: "Summary option \<Rightarrow> (Summary \<Rightarrow> 'a option) \<Rightarrow> 'a option" where
  "summary_field sm f = (case sm of None \<Rightarrow> None | Some x \<Rightarrow> f x)"

text \<open>
  One element of \<^verbatim>\<open>formattedEsgData\<close>, for the category stored under \<open>k\<close>:
  \<^verbatim>\<open>
  {
    category: 'E',
    title: 'Environmental',
    segments: extractTopDisclosures(detailedResults.environmental),
    ...
    stats: extractCategoryStats(detailedResults.environmental)
  }
  \<close>
  and the array of the three, built in the order E, S, G. An exception of
  \<^verbatim>\<open>extractCategoryStats\<close> leaves the array unbuilt.
\<close>

definition makeBucket :: "'n DetailedResults \<Rightarrow> string \<Rightarrow> string \<Rightarrow> string \<Rightarrow> error + 'n Bucket" where
  "makeBucket detailedResults c t k =
     (case extractCategoryStats (detailedResults k) of
        Inl e \<Rightarrow> Inl e
      | Inr s \<Rightarrow>
          Inr \<lparr>bucket_category = c, title = t,
               segments = extractTopDisclosures (detailedResults k),
               stats = s\<rparr>)"

definition formattedEsgData :: "'n DetailedResults \<Rightarrow> error + 'n Bucket list" where
  "formattedEsgData detailedResults =
     (case makeBucket detailedResults ''E'' ''Environmental'' ''environmental'' of
        Inl e \<Rightarrow> Inl e
      | Inr be \<Rightarrow>
          (case makeBucket detailedResults ''S'' ''Social'' ''social'' of
             Inl e \<Rightarrow> Inl e
           | Inr bs \<Rightarrow>
               (case makeBucket detailedResults ''G'' ''Governance'' ''governance'' of
                  Inl e \<Rightarrow> Inl e
                | Inr bg \<Rightarrow> Inr [be, bs, bg])))"

text \<open>
  \<^verbatim>\<open>analysisData\<close> is what the navigation state or the \<^verbatim>\<open>analysisResults\<close> slot of the
  local storage holds, \<^term>\<open>None\<close> when neither has it.
  \<^verbatim>\<open>
  try {
    setLoading(true);
    ...
    if (!analysisData) { console.warn(..); setLoading(false); return; }
    ...
    setMetadata({ companyName, reportYear, regulationId,
                  categoriesAnalyzed: analysisData.summary?.categories_analyzed || 0 });
    const detailedResults = analysisData.detailed_results || {};
    const formattedEsgData = [ .. ];
    setEsgData(formattedEsgData);
    const allGaps = extractGapAnalysis(detailedResults);
    const displayGaps = allGaps.slice(0, 7); // Show only first 7
    setCompleteGapAnalysis(allGaps);
    setGapAnalysis(displayGaps);
  } catch (error) {
    console.error('Error loading analysis results:', error);
  } finally {
    setLoading(false);
  }
  \<close>
  The metadata is set before the buckets are built, so an exception thrown while they are
  built is swallowed with the metadata set and the buckets and both gap lists as they were.
\<close>

definition loadAnalysisResults2 :: "'n number_ops \<Rightarrow> 'n AnalysisData option \<Rightarrow> 'n Dashboard \<Rightarrow> 'n Dashboard" where
  "loadAnalysisResults2 ops analysisData st =
     (case analysisData of
        None \<Rightarrow> st\<lparr>loading := False\<rparr>
      | Some ad \<Rightarrow>
          (let sm = summary ad;
               md = \<lparr>companyName = or_str (summary_field sm company_name) ''Company'',
                     reportYear = or_str (summary_field sm report_year) ''2024'',
                     regulationId_meta = or_str (summary_field sm summary_regulation_id) ''Regulation'',
                     categoriesAnalyzed =
                       (case summary_field sm categories_analyzed of None \<Rightarrow> 0 | Some k \<Rightarrow> k)\<rparr>;
               st1 = st\<lparr>pageMetadata := Some md\<rparr>;
               detailedResults =
                 (case detailed_results ad of None \<Rightarrow> Map.empty | Some d \<Rightarrow> d)
           in (case formattedEsgData detailedResults of
                 Inl e \<Rightarrow> st1\<lparr>loading := False\<rparr>
               | Inr buckets \<Rightarrow>
                   (let allGaps = extractGapAnalysis2 ops detailedResults;
                        displayGaps = take 7 allGaps
                    in st1\<lparr>esgData := Some buckets,
                           completeGapAnalysis := allGaps,
                           gapAnalysis := displayGaps,
                           loading := False\<rparr>))))"

section \<open>Workbook export\<close>

text \<open>
  \<^verbatim>\<open>String.prototype.toUpperCase\<close> on code units below 256: the letters a to z and the
  Latin-1 letters 224 to 254 (but not the division sign 247) move down by 32, the sharp s
  (223) becomes \<open>SS\<close>. The upper-case forms of the micro sign (181) and of y with
  diaeresis (255) lie beyond 255 and cannot be written here; these two are kept.
\<close>

definition upper_chars :: "char \<Rightarrow> string" where
  "upper_chars c =
     (let k = (of_char c :: nat)
      in if (97 \<le> k \<and> k \<le> 122) \<or> (224 \<le> k \<and> k \<le> 254 \<and> k \<noteq> 247)
         then [char_of (k - 32)]
         else if k = 223 then ''SS''
         else [c])"

definition toUpperCase :: "string \<Rightarrow> string" where
  "toUpperCase s = concat (map upper_chars s)"

record ExcelRow =
  key :: nat
  S_No :: nat
  Category :: string
  Status :: string
  Regulation_Clause_ID :: string
  Framework_Requirement_Text :: string
  Disclosure_Clause_ID :: string
  Company_Disclosure_Text :: string
  Regulation_Name :: string
  Coverage_Score :: string

datatype cell = Str string | Num nat

datatype sheet =
    RowSheet "ExcelRow list" "nat list"
  | MetricSheet "(string \<times> cell) list" "nat list"

record Workbook =
  filename :: string
  sheets :: "(string \<times> sheet) list"

datatype alert = Alert string

text \<open>
  \<^verbatim>\<open>
  const excelData = completeGapAnalysis.map((item, index) => ({
    key: index,
    'S.No': index + 1,
    'Category': item.category,
    'Status': item.status?.toUpperCase() || 'N/A',
    'Regulation Clause ID': item.regulationId || 'N/A',
    'Framework Requirement Text': item.frameworkText || 'N/A',
    'Disclosure Clause ID': item.disclosureId || 'N/A',
    'Company Disclosure Text': item.disclosureText || 'N/A',
    'Regulation Name': item.regulationName || metadata?.regulationId || 'N/A',
    'Coverage Score (%)': item.coverageScore || 'N/A'
  }));
  \<close>
\<close>

definition excelRow :: "PageMetadata option \<Rightarrow> nat \<Rightarrow> GapRow \<Rightarrow> ExcelRow" where
  "excelRow md index item =
     \<lparr>key = index,
      S_No = index + 1,
      Category = category item,
      Status = or_str (Some (toUpperCase (status item))) ''N/A'',
      Regulation_Clause_ID = or_str (Some (regulationId item)) ''N/A'',
      Framework_Requirement_Text = or_str (Some (frameworkText item)) ''N/A'',
      Disclosure_Clause_ID = or_str (Some (disclosureId item)) ''N/A'',
      Company_Disclosure_Text = or_str (Some (disclosureText item)) ''N/A'',
      Regulation_Name =
        or_str (or_opt (Some (regulationName item)) (map_option regulationId_meta md)) ''N/A'',
      Coverage_Score = or_str (Some (coverageScore item)) ''N/A''\<rparr>"

definition excelData :: "PageMetadata option \<Rightarrow> GapRow list \<Rightarrow> ExcelRow list" where
  "excelData md items = map (\<lambda>(index, item). excelRow md index item) (enumerate 0 items)"

text \<open>
  \<^verbatim>\<open>
  const summaryData = [
    { 'Metric': 'Company Name', 'Value': metadata?.companyName || 'N/A' },
    { 'Metric': 'Report Year', 'Value': metadata?.reportYear || 'N/A' },
    { 'Metric': 'Regulation', 'Value': metadata?.regulationId || 'N/A' },
    { 'Metric': 'Total Regulations Analyzed', 'Value': completeGapAnalysis.length },
    { 'Metric': 'Missing Coverage', 'Value': completeGapAnalysis.filter(g => g.status === 'missing').length },
    { 'Metric': 'Partial Coverage', 'Value': completeGapAnalysis.filter(g => g.status === 'partial').length },
    { 'Metric': 'Complete Coverage', 'Value': completeGapAnalysis.filter(g => g.status === 'complete').length }
  ];
  \<close>
\<close>

definition summaryData :: "PageMetadata option \<Rightarrow> GapRow list \<Rightarrow> (string \<times> cell) list" where
  "summaryData md items =
     [(''Company Name'', Str (or_str (map_option companyName md) ''N/A'')),
      (''Report Year'', Str (or_str (map_option reportYear md) ''N/A'')),
      (''Regulation'', Str (or_str (map_option regulationId_meta md) ''N/A'')),
      (''Total Regulations Analyzed'', Num (length items)),
      (''Missing Coverage'', Num (length (filter (\<lambda>g. status g = ''missing'') items))),
      (''Partial Coverage'', Num (length (filter (\<lambda>g. status g = ''partial'') items))),
      (''Complete Coverage'', Num (length (filter (\<lambda>g. status g = ''complete'') items)))]"

text \<open>
  \<^verbatim>\<open>downloadExcel\<close> reads the page state; \<open>currentYear\<close> stands for
  \<^verbatim>\<open>new Date().getFullYear()\<close> as the template prints it.
  \<^verbatim>\<open>
  if (completeGapAnalysis.length === 0) {
    alert('No gap analysis data available to download');
    return;
  }
  ...
  const filename = `Gap_Analysis_${metadata?.companyName || 'Report'}_${metadata?.reportYear || new Date().getFullYear()}.xlsx`;
  XLSX.writeFile(wb, filename);
  \<close>
  The result is the alert shown, or the workbook written.
\<close>

definition downloadExcel :: "string \<Rightarrow> PageMetadata option \<Rightarrow> GapRow list \<Rightarrow> alert + Workbook" where
  "downloadExcel currentYear md items =
     (if length items = 0 then Inl (Alert ''No gap analysis data available to download'')
      else Inr
        \<lparr>filename = ''Gap_Analysis_'' @ or_str (map_option companyName md) ''Report'' @ ''_''
             @ or_str (map_option reportYear md) currentYear @ ''.xlsx'',
         sheets =
           [(''Gap Analysis'', RowSheet (excelData md items) [6, 15, 12, 20, 50, 20, 50, 15, 18, 12]),
            (''Summary'', MetricSheet (summaryData md items) [30, 20])]\<rparr>)"

section \<open>Report page: the cached report\<close>

text \<open>
  The \<^verbatim>\<open>complianceReport\<close> slot of the local storage holds the generated payload with a
  \<^verbatim>\<open>timestamp\<close> (an ISO string written by \<^verbatim>\<open>new Date().toISOString()\<close>). Times are
  milliseconds since the epoch; \<open>stored_at\<close> is \<^verbatim>\<open>new Date(parsed.timestamp).getTime()\<close>,
  with \<^term>\<open>None\<close> for the \<^verbatim>\<open>NaN\<close> of a timestamp that does not parse.
\<close>

record 'r StoredReport =
  payload :: 'r
  stored_at :: "int option"

record 'r ReportPage =
  reportData :: "'r StoredReport option"
  page_error :: "string option"

text \<open>
  \<^verbatim>\<open>
  const storedReport = localStorage.getItem('complianceReport');
  if (storedReport) {
    const parsed = JSON.parse(storedReport);
    const reportAge = Date.now() - new Date(parsed.timestamp).getTime();
    if (reportAge < 3600000) { // 1 hour
      setReportData(parsed); setLoading(false); return;
    }
  }
  \<close>
  A comparison with \<^verbatim>\<open>NaN\<close> is false.
\<close>

definition cachedReport :: "int \<Rightarrow> 'r StoredReport option \<Rightarrow> 'r StoredReport option" where
  "cachedReport now slot =
     (case slot of
        None \<Rightarrow> None
      | Some parsed \<Rightarrow>
          (case stored_at parsed of
             None \<Rightarrow> None
           | Some t \<Rightarrow> if now - t < 3600000 then Some parsed else None))"

text \<open>
  \<^verbatim>\<open>generateReport\<close>: the answer of the report service is a parameter (\<^term>\<open>Inl\<close> the
  detail of a failed request, which is thrown), \<open>genTime\<close> the clock when it arrives.
  \<^verbatim>\<open>
  const reportWithTimestamp = { ...data, timestamp: new Date().toISOString() };
  localStorage.setItem('complianceReport', JSON.stringify(reportWithTimestamp));
  setReportData(reportWithTimestamp);
  \<close>
\<close>

definition generateReport ::
  "int \<Rightarrow> string + 'r \<Rightarrow> 'r StoredReport option \<times> 'r ReportPage
     \<Rightarrow> string + 'r StoredReport option \<times> 'r ReportPage" where
  "generateReport genTime response st =
     (case st of (slot, page) \<Rightarrow>
        (case response of
           Inl detail \<Rightarrow> Inl detail
         | Inr data \<Rightarrow>
             (let reportWithTimestamp = \<lparr>payload = data, stored_at = Some genTime\<rparr>
              in Inr (Some reportWithTimestamp, page\<lparr>reportData := Some reportWithTimestamp\<rparr>))))"

text \<open>
  \<^verbatim>\<open>loadOrGenerateReport\<close>: serve the stored report while it is fresh, generate otherwise;
  an exception ends in \<^verbatim>\<open>setError(error.message)\<close>.
\<close>

definition loadOrGenerateReport ::
  "int \<Rightarrow> int \<Rightarrow> string + 'r \<Rightarrow> 'r StoredReport option \<times> 'r ReportPage
     \<Rightarrow> 'r StoredReport option \<times> 'r ReportPage" where
  "loadOrGenerateReport now genTime response st =
     (case st of (slot, page) \<Rightarrow>
        (case cachedReport now slot of
           Some parsed \<Rightarrow> (slot, page\<lparr>reportData := Some parsed, page_error := None\<rparr>)
         | None \<Rightarrow>
             (case generateReport genTime response (slot, page\<lparr>page_error := None\<rparr>) of
                Inl message \<Rightarrow> (slot, page\<lparr>page_error := Some message\<rparr>)
              | Inr st' \<Rightarrow> st')))"

text \<open>\<^verbatim>\<open>handleRegenerateReport\<close>: \<^verbatim>\<open>localStorage.removeItem('complianceReport')\<close>, then load.\<close>

definition handleRegenerateReport ::
  "int \<Rightarrow> int \<Rightarrow> string + 'r \<Rightarrow> 'r StoredReport option \<times> 'r ReportPage
     \<Rightarrow> 'r StoredReport option \<times> 'r ReportPage" where
  "handleRegenerateReport now genTime response st =
     loadOrGenerateReport now genTime response (None, snd st)"

section \<open>Report page: markdown\<close>

text \<open>
  Characters are 8-bit here, so of the line terminators that \<^verbatim>\<open>.\<close> refuses only line feed
  and carriage return exist, and of the white space of \<^verbatim>\<open>\s\<close> and \<^verbatim>\<open>trim\<close> only the
  codes 9 to 13, 32 and 160.
\<close>

definition newline :: char where
  "newline = CHR 0x0A"

definition is_line_terminator :: "char \<Rightarrow> bool" where
  "is_line_terminator c = (c = CHR 0x0A \<or> c = CHR 0x0D)"

definition is_space :: "char \<Rightarrow> bool" where
  "is_space c = (let k = (of_char c :: nat) in (9 \<le> k \<and> k \<le> 13) \<or> k = 32 \<or> k = 160)"

text \<open>What \<^verbatim>\<open>(.*)\<close> takes at the end of a pattern, and what it leaves.\<close>

definition rest_of_line :: "string \<Rightarrow> string" where
  "rest_of_line s = takeWhile (\<lambda>c. \<not> is_line_terminator c) s"

definition after_line :: "string \<Rightarrow> string" where
  "after_line s = dropWhile (\<lambda>c. \<not> is_line_terminator c) s"

text \<open>
  \<^verbatim>\<open>s.replace(/PAT(.*)/g, 'OPN$1CLS')\<close> for a literal \<open>PAT\<close>, and with \<open>anchored\<close> the
  multi-line form \<^verbatim>\<open>/^PAT(.*)/gm\<close>, which matches at the start of the text and behind a
  line terminator only. The scan goes left to right and resumes behind each match.
\<close>

function replace_line_rule ::
  "bool \<Rightarrow> string \<Rightarrow> string \<Rightarrow> string \<Rightarrow> bool \<Rightarrow> string \<Rightarrow> string" where
  "replace_line_rule anchored pat opn cls atStart [] = []"
| "replace_line_rule anchored pat opn cls atStart (c # cs) =
     (if (anchored \<longrightarrow> atStart) \<and> pat \<noteq> [] \<and> prefix pat (c # cs)
      then opn @ rest_of_line (drop (length pat) (c # cs)) @ cls
             @ replace_line_rule anchored pat opn cls False (after_line (drop (length pat) (c # cs)))
      else c # replace_line_rule anchored pat opn cls (is_line_terminator c) cs)"
  by pat_completeness auto
termination
proof (relation "measure (\<lambda>(anchored, pat, opn, cls, atStart, s). length s)")
  fix anchored :: bool and pat opn cls :: string and atStart :: bool and c :: char and cs :: string
  assume "(anchored \<longrightarrow> atStart) \<and> pat \<noteq> [] \<and> prefix pat (c # cs)"
  then have "pat \<noteq> []" by simp
  then have "length (drop (length pat) (c # cs)) < length (c # cs)"
    by (cases pat) simp_all
  moreover have "length (after_line (drop (length pat) (c # cs))) \<le> length (drop (length pat) (c # cs))"
    unfolding after_line_def by (rule length_dropWhile_le)
  ultimately have "length (after_line (drop (length pat) (c # cs))) < length (c # cs)"
    by (rule le_less_trans [rotated])
  then show "((anchored, pat, opn, cls, False, after_line (drop (length pat) (c # cs))),
              (anchored, pat, opn, cls, atStart, c # cs))
             \<in> measure (\<lambda>(anchored, pat, opn, cls, atStart, s). length s)"
    by simp
qed simp_all

text \<open>
  Behind an opening \<^verbatim>\<open>**\<close>: the shortest \<^verbatim>\<open>(.*?)\<close> that is followed by \<^verbatim>\<open>**\<close> on the same
  line, with the text behind the closing \<^verbatim>\<open>**\<close>.
\<close>

fun find_close :: "string \<Rightarrow> (string \<times> string) option" where
  "find_close [] = None"
| "find_close (c # cs) =
     (if prefix ''**'' (c # cs) then Some ([], drop 2 (c # cs))
      else if is_line_terminator c then None
      else map_option (\<lambda>(cap, rest). (c # cap, rest)) (find_close cs))"

text \<open>A match of \<^verbatim>\<open>/\*\*(.*?)\*\*/\<close> at the head of the text.\<close>

definition match_bold :: "string \<Rightarrow> (string \<times> string) option" where
  "match_bold s = (if prefix ''**'' s then find_close (drop 2 s) else None)"

lemma find_close_length: "find_close s = Some (cap, rest) \<Longrightarrow> length rest < length s"
proof (induction s arbitrary: cap)
  case Nil
  then show ?case by simp
next
  case (Cons c cs)
  show ?case
  proof (cases "prefix ''**'' (c # cs)")
    case True
    with Cons.prems show ?thesis by auto
  next
    case False
    with Cons.prems obtain cap' where "find_close cs = Some (cap', rest)"
      by (auto split: if_splits)
    from Cons.IH [OF this] show ?thesis by simp
  qed
qed

lemma match_bold_length: "match_bold s = Some (cap, rest) \<Longrightarrow> length rest < length s"
  by (auto simp: match_bold_def split: if_splits dest!: find_close_length)

text \<open>\<^verbatim>\<open>s.replace(/\*\*(.*?)\*\*/g, '<strong>$1</strong>')\<close>\<close>

function replace_bold :: "string \<Rightarrow> string" where
  "replace_bold [] = []"
| "replace_bold (c # cs) =
     (case match_bold (c # cs) of
        Some (cap, rest) \<Rightarrow> ''<strong>'' @ cap @ ''</strong>'' @ replace_bold rest
      | None \<Rightarrow> c # replace_bold cs)"
  by pat_completeness auto
termination
  by (relation "measure length") (auto dest: match_bold_length)

text \<open>\<^verbatim>\<open>s.replace(/\n\n/g, '</p><p>')\<close> and \<^verbatim>\<open>s.replace(/\n/g, '<br>')\<close>\<close>

fun replace_blank_lines :: "string \<Rightarrow> string" where
  "replace_blank_lines (a # b # cs) =
     (if a = newline \<and> b = newline then ''</p><p>'' @ replace_blank_lines cs
      else a # replace_blank_lines (b # cs))"
| "replace_blank_lines cs = cs"

definition replace_newlines :: "string \<Rightarrow> string" where
  "replace_newlines s = concat (map (\<lambda>c. if c = newline then ''<br>'' else [c]) s)"

text \<open>
  \<^verbatim>\<open>
  const convertMarkdownToHTML = (markdown) => {
    if (!markdown) return '';
    return markdown
      .replace(/### (.*)/g, '<h3>$1</h3>')
      .replace(/## (.*)/g, '<h2>$1</h2>')
      .replace(/# (.*)/g, '<h1>$1</h1>')
      .replace(/\*\*(.*?)\*\*/g, '<strong>$1</strong>')
      .replace(/^\* (.*)/gm, '<li>$1</li>')
      .replace(/^- (.*)/gm, '<li>$1</li>')
      .replace(/\n\n/g, '</p><p>')
      .replace(/\n/g, '<br>');
  };
  \<close>
\<close>

definition convertMarkdownToHTML :: "string option \<Rightarrow> string" where
  "convertMarkdownToHTML markdown =
     (case markdown of
        None \<Rightarrow> []
      | Some m \<Rightarrow>
          if m = [] then []
          else
            replace_newlines
              (replace_blank_lines
                (replace_line_rule True ''- '' ''<li>'' ''</li>'' True
                  (replace_line_rule True ''* '' ''<li>'' ''</li>'' True
                    (replace_bold
                      (replace_line_rule False ''# '' ''<h1>'' ''</h1>'' True
                        (replace_line_rule False ''## '' ''<h2>'' ''</h2>'' True
                          (replace_line_rule False ''### '' ''<h3>'' ''</h3>'' True m))))))))"

subsection \<open>The interactive view\<close>

datatype inline = Text string | Strong string

datatype block = LineBreak | Paragraph "inline list" | ListItem string

text \<open>A rendered section: its heading, absent when the header is empty, and its lines.\<close>

datatype rendered_section = Section "string option" "block list"

definition trim :: "string \<Rightarrow> string" where
  "trim s = rev (dropWhile is_space (rev (dropWhile is_space s)))"

text \<open>
  \<^verbatim>\<open>markdown.split(/(?=###)/)\<close>: the text is cut in front of every \<^verbatim>\<open>###\<close> that is not at
  the start of the piece being collected (\<open>cur\<close>).
\<close>

fun split_sections :: "string \<Rightarrow> string \<Rightarrow> string list" where
  "split_sections cur [] = [cur]"
| "split_sections cur (c # cs) =
     (if cur \<noteq> [] \<and> prefix ''###'' (c # cs) then cur # split_sections [c] cs
      else split_sections (cur @ [c]) cs)"

text \<open>\<^verbatim>\<open>s.split('\n')\<close> and \<^verbatim>\<open>lines.join('\n')\<close>\<close>

fun split_lines :: "string \<Rightarrow> string list" where
  "split_lines [] = [[]]"
| "split_lines (c # cs) =
     (if c = newline then [] # split_lines cs
      else (case split_lines cs of
              [] \<Rightarrow> [[c]]
            | l # ls \<Rightarrow> (c # l) # ls))"

fun join_lines :: "string list \<Rightarrow> string" where
  "join_lines [] = []"
| "join_lines [l] = l"
| "join_lines (l # ls) = l @ newline # join_lines ls"

text \<open>\<^verbatim>\<open>s.includes(p)\<close>\<close>

fun includes_str :: "string \<Rightarrow> string \<Rightarrow> bool" where
  "includes_str p [] = (p = [])"
| "includes_str p (c # cs) = (prefix p (c # cs) \<or> includes_str p cs)"

text \<open>
  \<^verbatim>\<open>line.split(/\*\*(.*?)\*\*/g)\<close>: the pieces between the matches, with the captured
  text of each match between them.
\<close>

function split_bold :: "string \<Rightarrow> string \<Rightarrow> string list" where
  "split_bold cur [] = [cur]"
| "split_bold cur (c # cs) =
     (case match_bold (c # cs) of
        Some (cap, rest) \<Rightarrow> cur # cap # split_bold [] rest
      | None \<Rightarrow> split_bold (cur @ [c]) cs)"
  by pat_completeness auto
termination
  by (relation "measure (\<lambda>(cur, s). length s)") (auto dest: match_bold_length)

text \<open>
  One line of a section's content:
  \<^verbatim>\<open>
  if (!line.trim()) return <br key={lineIdx} />;
  if (line.includes('**')) {
    const parts = line.split(/\*\*(.*?)\*\*/g);
    return <p>{parts.map((part, i) => i % 2 === 1 ? <strong key={i}>{part}</strong> : part)}</p>;
  }
  if (line.trim().startsWith('*') || line.trim().startsWith('-')) {
    return <li>{line.replace(/^[\*\-]\s*/, '')}</li>;
  }
  return <p>{line}</p>;
  \<close>
\<close>

definition strip_bullet :: "string \<Rightarrow> string" where
  "strip_bullet line =
     (case line of
        [] \<Rightarrow> []
      | c # cs \<Rightarrow> if c = CHR ''*'' \<or> c = CHR ''-'' then dropWhile is_space cs else line)"

definition render_line :: "string \<Rightarrow> block" where
  "render_line line =
     (if trim line = [] then LineBreak
      else if includes_str ''**'' line
      then Paragraph (map (\<lambda>(i, part). if i mod 2 = 1 then Strong part else Text part)
                        (enumerate (0::nat) (split_bold [] line)))
      else if prefix ''*'' (trim line) \<or> prefix ''-'' (trim line)
      then ListItem (strip_bullet line)
      else Paragraph [Text line])"

text \<open>
  One section:
  \<^verbatim>\<open>
  if (!section.trim()) return null;
  const lines = section.split('\n');
  const isHeader = lines[0].startsWith('###');
  const header = isHeader ? lines[0].replace(/^###\s*/, '') : '';
  const content = isHeader ? lines.slice(1).join('\n') : section;
  \<close>
\<close>

definition render_section :: "string \<Rightarrow> rendered_section option" where
  "render_section section =
     (if trim section = [] then None
      else
        (case split_lines section of
           [] \<Rightarrow> None
         | l0 # ls \<Rightarrow>
             (let isHeader = prefix ''###'' l0;
                  header = (if isHeader then dropWhile is_space (drop 3 l0) else []);
                  content = (if isHeader then join_lines ls else section)
              in Some (Section (if header = [] then None else Some header)
                         (map render_line (split_lines content))))))"

definition renderMarkdown :: "string option \<Rightarrow> rendered_section option list option" where
  "renderMarkdown markdown =
     (case markdown of
        None \<Rightarrow> None
      | Some m \<Rightarrow> if m = [] then None else Some (map render_section (split_sections [] m)))"

section \<open>Notions used to state the properties\<close>

text \<open>The number an item's id prints: the inverse of \<^const>\<open>toString\<close>.\<close>

definition digit_value :: "char \<Rightarrow> nat" where
  "digit_value c = of_char c - 48"

definition idNumber :: "string \<Rightarrow> nat" where
  "idNumber s = foldl (\<lambda>a c. 10 * a + digit_value c) 0 s"

text \<open>How many items of a list belong to category \<open>c\<close> and have status \<open>s\<close>.\<close>

definition count_status :: "string \<Rightarrow> string \<Rightarrow> 'n GapItem list \<Rightarrow> nat" where
  "count_status c s gaps = length (filter (\<lambda>g. item_category g = c \<and> item_status g = s) gaps)"

definition known_status :: "'n GapItem \<Rightarrow> bool" where
  "known_status g \<longleftrightarrow> item_status g \<in> {''missing'', ''partial'', ''complete''}"

text \<open>
  \<open>a\<close> may stand in front of \<open>b\<close>: no partial or complete item in front of a missing one,
  no complete item in front of a partial one.
\<close>

definition precedes_ok :: "'n GapItem \<Rightarrow> 'n GapItem \<Rightarrow> bool" where
  "precedes_ok a b \<longleftrightarrow>
     \<not> (item_status b = ''missing'' \<and> item_status a \<in> {''partial'', ''complete''})
     \<and> \<not> (item_status b = ''partial'' \<and> item_status a = ''complete'')"

text \<open>The items one category appended, and the caps over a whole list.\<close>

definition capped :: "string \<Rightarrow> 'n GapItem list \<Rightarrow> bool" where
  "capped cat new \<longleftrightarrow>
     (\<forall>g\<in>set new. item_category g = cat
        \<and> item_status g \<in> {''missing'', ''partial'', ''complete''})
     \<and> length (filter (\<lambda>g. item_status g = ''missing'') new) \<le> 3
     \<and> length (filter (\<lambda>g. item_status g = ''partial'') new) \<le> 2
     \<and> length (filter (\<lambda>g. item_status g = ''complete'') new) \<le> 1"

definition caps_ok :: "'n GapItem list \<Rightarrow> bool" where
  "caps_ok gaps \<longleftrightarrow>
     (\<forall>c. count_status c ''missing'' gaps \<le> 3 \<and> count_status c ''partial'' gaps \<le> 2
        \<and> count_status c ''complete'' gaps \<le> 1)"

text \<open>
  Every category that has a gap analysis also has its metadata, so that the first listing
  reads \<^verbatim>\<open>categoryData.metadata.regulation_id\<close> without an exception.
\<close>

definition category_has_metadata :: "'n DetailedResults \<Rightarrow> string \<Rightarrow> bool" where
  "category_has_metadata dr c =
     (case dr c of None \<Rightarrow> True
      | Some cd \<Rightarrow> gap_analysis cd = None \<or> metadata cd \<noteq> None)"

definition has_metadata :: "'n DetailedResults \<Rightarrow> bool" where
  "has_metadata dr = list_all (category_has_metadata dr) categories"

text \<open>
  Every category that has a gap analysis also has its coverage statistics, so that
  \<^const>\<open>extractCategoryStats\<close> reads them without an exception.
\<close>

definition category_has_statistics :: "'n DetailedResults \<Rightarrow> string \<Rightarrow> bool" where
  "category_has_statistics dr c =
     (case dr c of None \<Rightarrow> True
      | Some cd \<Rightarrow>
          (case gap_analysis cd of None \<Rightarrow> True
           | Some ga \<Rightarrow> coverage_statistics ga \<noteq> None))"

definition has_statistics :: "'n DetailedResults \<Rightarrow> bool" where
  "has_statistics dr = list_all (category_has_statistics dr) categories"

text \<open>\<^verbatim>\<open>analysisData.detailed_results || {}\<close>\<close>

definition results_of :: "'n AnalysisData \<Rightarrow> 'n DetailedResults" where
  "results_of ad = (case detailed_results ad of None \<Rightarrow> Map.empty | Some d \<Rightarrow> d)"

text \<open>The regulation id a row shows: \<^verbatim>\<open>regObj.regulation_id || 'N/A'\<close>.\<close>

definition shown_id :: "'n RegulationMatch \<Rightarrow> string" where
  "shown_id r = or_str (present (regulation_id r)) ''N/A''"

section \<open>Sample inputs\<close>

text \<open>
  Scores of the samples are whole numbers, for which \<^verbatim>\<open>`${x}`\<close> prints the decimal digits
  and \<^verbatim>\<open>(x * 100).toFixed(1)\<close> prints those of \<open>100 * x\<close> followed by \<open>.0\<close>.
\<close>

definition sample_ops :: "nat number_ops" where
  "sample_ops = \<lparr>num_truthy = (\<lambda>x. x \<noteq> 0), num_show = toString,
                  num_percent1 = (\<lambda>x. toString (x * 100) @ ''.0'')\<rparr>"

definition sample_reg :: "string \<Rightarrow> nat RegulationMatch" where
  "sample_reg rid =
     \<lparr>regulation_id = Value rid, regulation_text = Some (''Clause '' @ rid),
      best_match_score = Value 1, matched_disclosures = Some []\<rparr>"

definition sample_category ::
  "nat RegulationMatch list \<Rightarrow> nat RegulationMatch list \<Rightarrow> nat RegulationMatch list
     \<Rightarrow> nat CategoryData" where
  "sample_category uncovered partially cov =
     \<lparr>metadata = Some \<lparr>meta_category = None, meta_regulation_id = Value ''BRSR''\<rparr>,
      disclosure_to_regulation_matches = Some [],
      regulation_to_disclosure_matches = Some [],
      gap_analysis =
        Some \<lparr>coverage_statistics =
                 Some \<lparr>total_regulations = int (length uncovered + length partially + length cov),
                  fully_covered = int (length cov), coverage_percentage = 0\<rparr>,
               uncovered_regulations = Some uncovered,
               partially_covered_regulations = Some partially,
               covered_regulations = Some cov\<rparr>\<rparr>"

text \<open>Two categories: one uncovered and one partly covered regulation, then one uncovered.\<close>

definition sample_mixed :: "nat DetailedResults" where
  "sample_mixed =
     [''environmental'' \<mapsto> sample_category [sample_reg ''E1''] [sample_reg ''E2''] [],
      ''social'' \<mapsto> sample_category [sample_reg ''S1''] [] []]"

definition sample_item :: "nat \<Rightarrow> string \<Rightarrow> string \<Rightarrow> string \<Rightarrow> nat GapItem" where
  "sample_item n rid st cat =
     \<lparr>item_id = toString n, gap = ''Clause '' @ rid,
      expectation = ''BRSR requirement - Coverage score: 1'',
      item_status = st, item_category = cat, item_score = Value 1\<rparr>"

text \<open>The items of \<^const>\<open>sample_mixed\<close> as they are created, and as they are returned.\<close>

definition sample_mixed_gaps :: "nat GapItem list" where
  "sample_mixed_gaps =
     [sample_item 1 ''E1'' ''missing'' ''environmental'',
      sample_item 2 ''E2'' ''partial'' ''environmental'',
      sample_item 3 ''S1'' ''missing'' ''social'']"

definition sample_mixed_out :: "nat GapItem list" where
  "sample_mixed_out =
     [sample_item 1 ''E1'' ''missing'' ''environmental'',
      sample_item 3 ''S1'' ''missing'' ''social'',
      sample_item 2 ''E2'' ''partial'' ''environmental'']"

text \<open>One category with seven uncovered regulations.\<close>

definition sample_seven :: "nat DetailedResults" where
  "sample_seven =
     [''environmental'' \<mapsto>
        sample_category
          (map sample_reg [''E1'', ''E2'', ''E3'', ''E4'', ''E5'', ''E6'', ''E7'']) [] []]"

text \<open>Three categories, each with four uncovered, three partly covered and two covered regulations.\<close>

definition sample_full :: "nat DetailedResults" where
  "sample_full =
     [''environmental'' \<mapsto>
        sample_category (map sample_reg [''E1'', ''E2'', ''E3'', ''E4''])
          (map sample_reg [''E5'', ''E6'', ''E7'']) (map sample_reg [''E8'', ''E9'']),
      ''social'' \<mapsto>
        sample_category (map sample_reg [''S1'', ''S2'', ''S3'', ''S4''])
          (map sample_reg [''S5'', ''S6'', ''S7'']) (map sample_reg [''S8'', ''S9'']),
      ''governance'' \<mapsto>
        sample_category (map sample_reg [''G1'', ''G2'', ''G3'', ''G4''])
          (map sample_reg [''G5'', ''G6'', ''G7'']) (map sample_reg [''G8'', ''G9''])]"

definition sample_analysis :: "nat AnalysisData" where
  "sample_analysis =
     \<lparr>summary = Some \<lparr>company_name = Some ''Acme'', report_year = Some ''2024'',
                      summary_regulation_id = Some ''BRSR'', categories_analyzed = Some 2\<rparr>,
      detailed_results = Some sample_mixed\<rparr>"

text \<open>A payload whose only category has a gap analysis without coverage statistics.\<close>

definition sample_no_statistics :: "nat AnalysisData" where
  "sample_no_statistics =
     \<lparr>summary = None,
      detailed_results =
        Some [''environmental'' \<mapsto>
                \<lparr>metadata = None, disclosure_to_regulation_matches = None,
                 regulation_to_disclosure_matches = None,
                 gap_analysis =
                   Some \<lparr>coverage_statistics = None,
                         uncovered_regulations = Some [sample_reg ''E1''],
                         partially_covered_regulations = None,
                         covered_regulations = None\<rparr>\<rparr>]\<rparr>"

definition sample_dashboard :: "nat Dashboard" where
  "sample_dashboard = loadAnalysisResults2 sample_ops (Some sample_analysis) initialDashboard"

text \<open>Five disclosure matches, the second and the fifth of them strong.\<close>

definition sample_match :: "string \<Rightarrow> bool \<Rightarrow> DisclosureMatch" where
  "sample_match t strong = \<lparr>disclosure_text = Some t, is_strong_match = strong\<rparr>"

definition sample_matches :: "DisclosureMatch list" where
  "sample_matches =
     [sample_match ''water use'' False, sample_match ''emissions'' True,
      sample_match ''waste'' False, sample_match ''energy'' False,
      sample_match ''biodiversity'' True]"

definition sample_disclosures :: "DisclosureMatch list \<Rightarrow> nat CategoryData" where
  "sample_disclosures ms =
     \<lparr>metadata = None, disclosure_to_regulation_matches = Some ms,
      regulation_to_disclosure_matches = None, gap_analysis = None\<rparr>"

text \<open>The text of the rendering example: a heading, a line with a bold span, two bullets.\<close>

definition sample_markdown :: string where
  "sample_markdown =
     ''### Title'' @ [newline] @ ''**Bold** text'' @ [newline] @ ''* item1'' @ [newline] @ ''* item2''"

text \<open>A page with nothing loaded, and a report stored at time 1000.\<close>

definition sample_page :: "string ReportPage" where
  "sample_page = \<lparr>reportData = None, page_error = None\<rparr>"

definition sample_stored :: "string StoredReport" where
  "sample_stored = \<lparr>payload = ''first report'', stored_at = Some 1000\<rparr>"

section \<open>Properties\<close>

subsection \<open>Item numbers\<close>

lemma digit_value_digit_char: "d < 10 \<Longrightarrow> digit_value (digit_char d) = d"
  by (simp add: digit_value_def digit_char_def)

lemma idNumber_snoc: "idNumber (s @ [c]) = 10 * idNumber s + digit_value c"
  by (simp add: idNumber_def)

lemma idNumber_toString: "idNumber (toString n) = n"
proof (induction n rule: toString.induct)
  case (1 n)
  show ?case
  proof (cases "n < 10")
    case True
    then show ?thesis
      by (subst toString.simps) (simp add: idNumber_def digit_value_digit_char)
  next
    case False
    with 1 have "idNumber (toString (n div 10)) = n div 10" by simp
    with False show ?thesis
      by (subst toString.simps) (simp add: idNumber_snoc digit_value_digit_char)
  qed
qed

subsection \<open>What the categories append\<close>

lemma pushGaps_result:
  "pushGaps ops cd cat st regs (gaps, n) = Inr (gaps', n') \<Longrightarrow>
   \<exists>new. gaps' = gaps @ new \<and> n' = n + length new \<and> length new = length regs
        \<and> map item_id new = map toString [n..<n + length new]
        \<and> (\<forall>g\<in>set new. item_status g = st \<and> item_category g = cat)"
proof (induction regs arbitrary: gaps n)
  case Nil
  then show ?case by simp
next
  case (Cons r regs)
  from Cons.prems obtain g where
    g: "pushGap ops cd cat st r (gaps, n) = Inr (gaps @ [g], n + 1)"
       "item_id g = toString n" "item_status g = st" "item_category g = cat"
    and rest: "pushGaps ops cd cat st regs (gaps @ [g], n + 1) = Inr (gaps', n')"
    by (auto simp: pushGap_def split: option.splits sum.splits)
  from Cons.IH [OF rest] obtain new where
    new: "gaps' = (gaps @ [g]) @ new" "n' = n + 1 + length new" "length new = length regs"
         "map item_id new = map toString [n + 1..<n + 1 + length new]"
         "\<forall>x\<in>set new. item_status x = st \<and> item_category x = cat"
    by blast
  have "[n..<n + length (g # new)] = n # [Suc n..<n + length (g # new)]"
    by (rule upt_conv_Cons) simp
  then have "[n..<n + length (g # new)] = n # [n + 1..<n + 1 + length new]"
    by simp
  with g new show ?case
    by (intro exI [of _ "g # new"]) simp
qed

lemma pushFirst_result:
  assumes "pushFirst ops cd cat st k regs (gaps, n) = Inr (gaps', n')"
  shows "\<exists>new. gaps' = gaps @ new \<and> n' = n + length new \<and> length new \<le> k
        \<and> map item_id new = map toString [n..<n + length new]
        \<and> (\<forall>g\<in>set new. item_status g = st \<and> item_category g = cat)"
proof (cases regs)
  case None
  with assms show ?thesis by (auto simp: pushFirst_def)
next
  case (Some rs)
  with assms have "pushGaps ops cd cat st (take k rs) (gaps, n) = Inr (gaps', n')"
    by (simp add: pushFirst_def)
  from pushGaps_result [OF this] show ?thesis by auto
qed

lemma filter_all: "\<forall>g\<in>set xs. P g \<Longrightarrow> filter P xs = xs"
  by (induction xs) auto

lemma filter_none: "\<forall>g\<in>set xs. \<not> P g \<Longrightarrow> filter P xs = []"
  by (induction xs) auto

lemma processCategory1_result:
  assumes "processCategory1 ops dr cat (gaps, n) = Inr (gaps', n')"
  shows "\<exists>new. gaps' = gaps @ new \<and> n' = n + length new
        \<and> map item_id new = map toString [n..<n + length new]
        \<and> capped cat new"
proof (cases "dr cat")
  case None
  with assms show ?thesis by (auto simp: processCategory1_def capped_def)
next
  case (Some cd)
  show ?thesis
  proof (cases "gap_analysis cd")
    case None
    with Some assms show ?thesis by (auto simp: processCategory1_def capped_def)
  next
    case (Some gd)
    with \<open>dr cat = Some cd\<close> assms obtain g1 n1 g2 n2 where
      s1: "pushFirst ops cd cat ''missing'' 3 (uncovered_regulations gd) (gaps, n) = Inr (g1, n1)"
      and s2: "pushFirst ops cd cat ''partial'' 2 (partially_covered_regulations gd) (g1, n1) = Inr (g2, n2)"
      and s3: "pushFirst ops cd cat ''complete'' 1 (covered_regulations gd) (g2, n2) = Inr (gaps', n')"
      by (auto simp: processCategory1_def split: sum.splits)
    from pushFirst_result [OF s1] obtain a where
      a: "g1 = gaps @ a" "n1 = n + length a" "length a \<le> 3"
         "map item_id a = map toString [n..<n + length a]"
         "\<forall>g\<in>set a. item_status g = ''missing'' \<and> item_category g = cat"
      by blast
    from pushFirst_result [OF s2] obtain b where
      b: "g2 = g1 @ b" "n2 = n1 + length b" "length b \<le> 2"
         "map item_id b = map toString [n1..<n1 + length b]"
         "\<forall>g\<in>set b. item_status g = ''partial'' \<and> item_category g = cat"
      by blast
    from pushFirst_result [OF s3] obtain c where
      c: "gaps' = g2 @ c" "n' = n2 + length c" "length c \<le> 1"
         "map item_id c = map toString [n2..<n2 + length c]"
         "\<forall>g\<in>set c. item_status g = ''complete'' \<and> item_category g = cat"
      by blast
    have ids: "map item_id (a @ b @ c) = map toString [n..<n + length (a @ b @ c)]"
    proof -
      have e1: "[n..<n + length a + (length b + length c)]
                = [n..<n + length a] @ [n + length a..<n + length a + (length b + length c)]"
        by (rule upt_add_eq_append) simp
      have e2: "[n + length a..<n + length a + length b + length c]
                = [n + length a..<n + length a + length b]
                  @ [n + length a + length b..<n + length a + length b + length c]"
        by (rule upt_add_eq_append) simp
      have "[n..<n + length (a @ b @ c)]
            = [n..<n + length a] @ [n1..<n1 + length b] @ [n2..<n2 + length c]"
        using e1 e2 a(2) b(2) by (simp only: length_append add.assoc)
      with a(4) b(4) c(4) show ?thesis by simp
    qed
    have fa: "filter (\<lambda>g. item_status g = ''missing'') (a @ b @ c) = a"
      using a(5) b(5) c(5) by (simp add: filter_all filter_none)
    have fb: "filter (\<lambda>g. item_status g = ''partial'') (a @ b @ c) = b"
      using a(5) b(5) c(5) by (simp add: filter_all filter_none)
    have fc: "filter (\<lambda>g. item_status g = ''complete'') (a @ b @ c) = c"
      using a(5) b(5) c(5) by (simp add: filter_all filter_none)
    have "capped cat (a @ b @ c)"
      unfolding capped_def fa fb fc using a(3,5) b(3,5) c(3,5) by auto
    with ids a(1,2) b(1,2) c(1,2) show ?thesis
      by (intro exI [of _ "a @ b @ c"]) simp
  qed
qed

lemma count_status_append:
  "count_status c s (xs @ ys) = count_status c s xs + count_status c s ys"
  by (simp add: count_status_def)

lemma count_status_other:
  "\<forall>g\<in>set xs. item_category g \<noteq> c \<Longrightarrow> count_status c s xs = 0"
  by (simp add: count_status_def filter_none)

lemma count_status_same:
  "\<forall>g\<in>set xs. item_category g = c \<Longrightarrow>
   count_status c s xs = length (filter (\<lambda>g. item_status g = s) xs)"
  unfolding count_status_def by (rule arg_cong [where f = length], rule filter_cong) auto

lemma capped_count:
  assumes "capped cat new"
  shows "count_status c ''missing'' new \<le> 3" "count_status c ''partial'' new \<le> 2"
        "count_status c ''complete'' new \<le> 1"
proof -
  have cat: "\<forall>g\<in>set new. item_category g = cat" using assms by (simp add: capped_def)
  show "count_status c ''missing'' new \<le> 3"
  proof (cases "c = cat")
    case True
    with cat assms show ?thesis by (simp add: count_status_same capped_def)
  next
    case False
    with cat show ?thesis by (simp add: count_status_other)
  qed
  show "count_status c ''partial'' new \<le> 2"
  proof (cases "c = cat")
    case True
    with cat assms show ?thesis by (simp add: count_status_same capped_def)
  next
    case False
    with cat show ?thesis by (simp add: count_status_other)
  qed
  show "count_status c ''complete'' new \<le> 1"
  proof (cases "c = cat")
    case True
    with cat assms show ?thesis by (simp add: count_status_same capped_def)
  next
    case False
    with cat show ?thesis by (simp add: count_status_other)
  qed
qed

lemma processCategories1_result:
  assumes "processCategories1 ops dr cs (gaps, n) = Inr (gaps', n')" and "distinct cs"
  shows "\<exists>new. gaps' = gaps @ new \<and> n' = n + length new
        \<and> map item_id new = map toString [n..<n + length new]
        \<and> caps_ok new
        \<and> (\<forall>g\<in>set new. item_category g \<in> set cs \<and> known_status g)"
  using assms
proof (induction cs arbitrary: gaps n)
  case Nil
  then show ?case by (simp add: caps_ok_def count_status_def)
next
  case (Cons c cs)
  from Cons.prems(1) obtain g1 n1 where
    s1: "processCategory1 ops dr c (gaps, n) = Inr (g1, n1)"
    and s2: "processCategories1 ops dr cs (g1, n1) = Inr (gaps', n')"
    by (auto split: sum.splits)
  from processCategory1_result [OF s1] obtain a where
    a: "g1 = gaps @ a" "n1 = n + length a"
       "map item_id a = map toString [n..<n + length a]" "capped c a"
    by blast
  from Cons.prems(2) have "distinct cs" and notin: "c \<notin> set cs" by simp_all
  from Cons.IH [OF s2 \<open>distinct cs\<close>] obtain b where
    b: "gaps' = g1 @ b" "n' = n1 + length b"
       "map item_id b = map toString [n1..<n1 + length b]" "caps_ok b"
       "\<forall>g\<in>set b. item_category g \<in> set cs \<and> known_status g"
    by blast
  have ids: "map item_id (a @ b) = map toString [n..<n + length (a @ b)]"
  proof -
    have "[n..<n + length a + length b] = [n..<n + length a] @ [n + length a..<n + length a + length b]"
      by (rule upt_add_eq_append) simp
    with a(2,3) b(3) show ?thesis by (simp add: add.assoc)
  qed
  have acat: "\<forall>g\<in>set a. item_category g = c" and aknown: "\<forall>g\<in>set a. known_status g"
    using a(4) by (simp_all add: capped_def known_status_def)
  have bcat: "\<forall>g\<in>set b. item_category g \<noteq> c" using b(5) notin by auto
  have caps: "caps_ok (a @ b)"
    unfolding caps_ok_def
  proof (intro allI)
    fix x
    show "count_status x ''missing'' (a @ b) \<le> 3 \<and> count_status x ''partial'' (a @ b) \<le> 2
          \<and> count_status x ''complete'' (a @ b) \<le> 1"
    proof (cases "x = c")
      case True
      with bcat have "\<And>s. count_status x s b = 0" by (simp add: count_status_other)
      with capped_count [OF a(4), of x] show ?thesis by (simp add: count_status_append)
    next
      case False
      with acat have "\<And>s. count_status x s a = 0" by (simp add: count_status_other)
      with b(4) show ?thesis by (simp add: count_status_append caps_ok_def)
    qed
  qed
  from ids caps acat aknown a(1,2) b(1,2,5) show ?case
    by (intro exI [of _ "a @ b"]) auto
qed

lemma collectGaps1_result:
  assumes "collectGaps1 ops dr = Inr (gaps, n)"
  shows "n = length gaps + 1" "map item_id gaps = map toString [1..<n]" "caps_ok gaps"
        "\<forall>g\<in>set gaps. known_status g"
proof -
  have "distinct categories" by (simp add: categories_def)
  with assms processCategories1_result [of ops dr categories "[]" 1 gaps n]
  obtain new where new: "gaps = [] @ new" "n = 1 + length new"
      "map item_id new = map toString [1..<1 + length new]" "caps_ok new"
      "\<forall>g\<in>set new. item_category g \<in> set categories \<and> known_status g"
    unfolding collectGaps1_def by blast
  then show "n = length gaps + 1" "map item_id gaps = map toString [1..<n]" "caps_ok gaps"
        "\<forall>g\<in>set gaps. known_status g"
    by simp_all
qed

subsection \<open>The status sort\<close>

lemma mset_insert_by: "mset (insert_by cmp x ys) = add_mset x (mset ys)"
  by (induction ys) simp_all

lemma mset_sort_by: "mset (sort_by cmp xs) = mset xs"
  unfolding sort_by_def by (induction xs) (simp_all add: mset_insert_by)

lemma compareStatus_pos_differs:
  "0 < compareStatus a b \<Longrightarrow> item_status a \<noteq> item_status b"
  by (auto simp: compareStatus_def split: option.splits)

lemma filter_status_insert_by:
  "filter (\<lambda>g. item_status g = s) (insert_by compareStatus x ys)
   = filter (\<lambda>g. item_status g = s) (x # ys)"
proof (induction ys)
  case Nil
  show ?case by simp
next
  case (Cons y ys)
  show ?case
  proof (cases "compareStatus x y \<le> 0")
    case True
    then show ?thesis by simp
  next
    case False
    then have "item_status x \<noteq> item_status y"
      by (intro compareStatus_pos_differs) simp
    with False Cons.IH show ?thesis by auto
  qed
qed

lemma sort_by_stable:
  "filter (\<lambda>g. item_status g = s) (sort_by compareStatus xs) = filter (\<lambda>g. item_status g = s) xs"
  unfolding sort_by_def by (induction xs) (simp_all add: filter_status_insert_by)

lemma compareStatus_known:
  assumes "known_status a" "known_status b"
  shows "compareStatus a b \<le> 0 \<longleftrightarrow> precedes_ok a b"
  using assms by (auto simp: known_status_def compareStatus_def statusPriority_def precedes_ok_def)

lemma precedes_ok_trans:
  "known_status b \<Longrightarrow> precedes_ok a b \<Longrightarrow> precedes_ok b c \<Longrightarrow> precedes_ok a c"
  by (auto simp: known_status_def precedes_ok_def)

lemma precedes_ok_total:
  "known_status a \<Longrightarrow> known_status b \<Longrightarrow> \<not> precedes_ok a b \<Longrightarrow> precedes_ok b a"
  by (auto simp: known_status_def precedes_ok_def)

lemma set_insert_by: "set (insert_by cmp x ys) = insert x (set ys)"
  by (induction ys) auto

lemma sorted_insert_by:
  assumes "sorted_wrt precedes_ok ys" "known_status x" "\<forall>y\<in>set ys. known_status y"
  shows "sorted_wrt precedes_ok (insert_by compareStatus x ys)"
  using assms
proof (induction ys)
  case Nil
  show ?case by simp
next
  case (Cons y ys)
  have ky: "known_status y" using Cons.prems(3) by simp
  show ?case
  proof (cases "compareStatus x y \<le> 0")
    case True
    then have xy: "precedes_ok x y" using compareStatus_known [OF Cons.prems(2) ky] by simp
    have "\<forall>z\<in>set ys. precedes_ok x z"
      using Cons.prems(1) xy ky by (auto intro: precedes_ok_trans)
    with True xy Cons.prems(1) show ?thesis by simp
  next
    case False
    then have "\<not> precedes_ok x y" using compareStatus_known [OF Cons.prems(2) ky] by simp
    then have yx: "precedes_ok y x" using precedes_ok_total [OF Cons.prems(2) ky] by simp
    have "sorted_wrt precedes_ok (insert_by compareStatus x ys)"
      using Cons by simp
    with False yx Cons.prems(1) show ?thesis by (simp add: set_insert_by)
  qed
qed

lemma sorted_sort_by:
  "\<forall>g\<in>set xs. known_status g \<Longrightarrow> sorted_wrt precedes_ok (sort_by compareStatus xs)"
proof (induction xs)
  case Nil
  show ?case by (simp add: sort_by_def)
next
  case (Cons x xs)
  have "set (foldr (insert_by compareStatus) xs []) = set xs"
    using mset_sort_by [of compareStatus xs] unfolding sort_by_def by (metis set_mset_mset)
  with Cons show ?case
    unfolding sort_by_def by (simp add: sorted_insert_by)
qed

lemma filter_take_prefix: "prefix (filter P (take k xs)) (filter P xs)"
proof -
  have "filter P xs = filter P (take k xs) @ filter P (drop k xs)"
    by (metis append_take_drop_id filter_append)
  then show ?thesis by (metis prefixI)
qed

subsection \<open>The first listing returns\<close>

lemma pushGaps_returns:
  "metadata cd \<noteq> None \<Longrightarrow> \<exists>st'. pushGaps ops cd cat s regs st = Inr st'"
proof (induction regs arbitrary: st)
  case Nil
  show ?case by simp
next
  case (Cons r regs)
  from Cons.prems obtain st1 where "pushGap ops cd cat s r st = Inr st1"
    by (cases st) (auto simp: pushGap_def)
  with Cons.IH [OF Cons.prems, of st1] show ?case by simp
qed

lemma pushFirst_returns:
  assumes "metadata cd \<noteq> None"
  shows "\<exists>st'. pushFirst ops cd cat s k regs st = Inr st'"
proof (cases regs)
  case None
  then show ?thesis by (simp add: pushFirst_def)
next
  case (Some rs)
  from pushGaps_returns [OF assms, of ops cat s "take k rs" st] Some
  show ?thesis by (simp add: pushFirst_def)
qed

lemma processCategory1_returns:
  assumes "category_has_metadata dr cat"
  shows "\<exists>st'. processCategory1 ops dr cat st = Inr st'"
proof (cases "dr cat")
  case None
  then show ?thesis by (simp add: processCategory1_def)
next
  case (Some cd)
  show ?thesis
  proof (cases "gap_analysis cd")
    case None
    with Some show ?thesis by (simp add: processCategory1_def)
  next
    case (Some gd)
    with \<open>dr cat = Some cd\<close> assms have m: "metadata cd \<noteq> None"
      by (simp add: category_has_metadata_def)
    obtain s1 where s1: "pushFirst ops cd cat ''missing'' 3 (uncovered_regulations gd) st = Inr s1"
      using pushFirst_returns [OF m] by blast
    obtain s2 where s2: "pushFirst ops cd cat ''partial'' 2 (partially_covered_regulations gd) s1 = Inr s2"
      using pushFirst_returns [OF m] by blast
    obtain s3 where s3: "pushFirst ops cd cat ''complete'' 1 (covered_regulations gd) s2 = Inr s3"
      using pushFirst_returns [OF m] by blast
    from s1 s2 s3 Some \<open>dr cat = Some cd\<close> show ?thesis
      by (simp add: processCategory1_def)
  qed
qed

lemma processCategories1_returns:
  assumes "list_all (category_has_metadata dr) cs"
  shows "\<exists>st'. processCategories1 ops dr cs st = Inr st'"
  using assms
proof (induction cs arbitrary: st)
  case Nil
  show ?case by simp
next
  case (Cons c cs)
  from Cons.prems have hd: "category_has_metadata dr c"
    and tl: "list_all (category_has_metadata dr) cs"
    by simp_all
  from processCategory1_returns [OF hd, of ops st]
  obtain s1 where s1: "processCategory1 ops dr c st = Inr s1" by blast
  from Cons.IH [OF tl, of s1]
  obtain s2 where s2: "processCategories1 ops dr cs s1 = Inr s2" by blast
  from s1 s2 show ?case by simp
qed

lemma extractGapAnalysis1_returns:
  assumes "has_metadata dr"
  shows "\<exists>out. extractGapAnalysis1 ops dr = Inr out"
proof -
  from processCategories1_returns [OF assms [unfolded has_metadata_def], of ops "([], 1)"]
  obtain st where "collectGaps1 ops dr = Inr st"
    unfolding collectGaps1_def by blast
  then show ?thesis by (cases st) (simp add: extractGapAnalysis1_def)
qed

subsection \<open>The returned items\<close>

lemma extractGapAnalysis1_Inr:
  assumes "extractGapAnalysis1 ops dr = Inr out"
  obtains gaps n where "collectGaps1 ops dr = Inr (gaps, n)"
    and "out = take 10 (sort_by compareStatus gaps)"
  using assms by (auto simp: extractGapAnalysis1_def split: sum.splits)

lemma length_filter_take_le: "length (filter P (take k xs)) \<le> length (filter P xs)"
  using filter_take_prefix [of P k xs] by (rule prefix_length_le)

lemma count_status_sorted_take:
  "count_status c s (take k (sort_by cmp xs)) \<le> count_status c s xs"
proof -
  have "count_status c s (take k (sort_by cmp xs)) \<le> count_status c s (sort_by cmp xs)"
    unfolding count_status_def by (rule length_filter_take_le)
  also have "count_status c s (sort_by cmp xs) = count_status c s xs"
  proof -
    have "mset (filter (\<lambda>g. item_category g = c \<and> item_status g = s) (sort_by cmp xs))
          = mset (filter (\<lambda>g. item_category g = c \<and> item_status g = s) xs)"
      by (simp only: mset_filter mset_sort_by)
    then show ?thesis
      unfolding count_status_def by (rule mset_eq_length)
  qed
  finally show ?thesis .
qed

lemma length_filter_three:
  assumes "\<forall>g\<in>set xs. f g = a \<or> f g = b \<or> f g = c" "a \<noteq> b" "a \<noteq> c" "b \<noteq> c"
  shows "length (filter P xs)
         = length (filter (\<lambda>g. P g \<and> f g = a) xs) + length (filter (\<lambda>g. P g \<and> f g = b) xs)
           + length (filter (\<lambda>g. P g \<and> f g = c) xs)"
  using assms by (induction xs) auto

lemma category_total:
  assumes "\<forall>g\<in>set xs. known_status g"
  shows "length (filter (\<lambda>g. item_category g = c) xs)
         = count_status c ''missing'' xs + count_status c ''partial'' xs + count_status c ''complete'' xs"
  unfolding count_status_def
proof (rule length_filter_three)
  show "\<forall>g\<in>set xs. item_status g = ''missing'' \<or> item_status g = ''partial'' \<or> item_status g = ''complete''"
    using assms by (simp add: known_status_def)
qed simp_all

lemma ids_of_collected:
  assumes "collectGaps1 ops dr = Inr (gaps, n)"
  shows "map idNumber (map item_id gaps) = [1..<Suc (length gaps)]"
proof -
  from collectGaps1_result(1,2) [OF assms]
  have "map item_id gaps = map toString [1..<Suc (length gaps)]" by simp
  then have "map idNumber (map item_id gaps) = map (idNumber \<circ> toString) [1..<Suc (length gaps)]"
    by simp
  also have "\<dots> = map id [1..<Suc (length gaps)]"
    by (rule map_cong) (simp_all add: idNumber_toString)
  finally show ?thesis by simp
qed

subsection \<open>The samples, evaluated\<close>

lemma sample_mixed_collect: "collectGaps1 sample_ops sample_mixed = Inr (sample_mixed_gaps, 4)"
  by code_simp

lemma sample_mixed_extract: "extractGapAnalysis1 sample_ops sample_mixed = Inr sample_mixed_out"
  by code_simp

lemma sample_mixed_has_metadata: "has_metadata sample_mixed"
  by code_simp

subsection \<open>Gap aggregation\<close>

text \<open>
  C1 (amended). The first listing of the aggregator returns, whenever every category with a gap
  analysis has its metadata, and what it returns holds per category at most 3 items with
  status missing, 2 with status partial and 1 with status complete (6 at most). Its ids are
  pairwise distinct; they are the numbers 1, 2, 3, ... in the order of creation, not reset
  per category, so after the status sort they increase strictly among the items of one
  status, not across the whole returned list.
\<close>

theorem extractGapAnalysis1_caps_and_ids:
  "(has_metadata dr \<longrightarrow> (\<exists>out. extractGapAnalysis1 ops dr = Inr out))
   \<and> (\<forall>out. extractGapAnalysis1 ops dr = Inr out \<longrightarrow>
         (\<forall>c. count_status c ''missing'' out \<le> 3 \<and> count_status c ''partial'' out \<le> 2
             \<and> count_status c ''complete'' out \<le> 1
             \<and> length (filter (\<lambda>g. item_category g = c) out) \<le> 6)
       \<and> distinct (map item_id out)
       \<and> (\<forall>s. sorted_wrt (<) (map idNumber (map item_id (filter (\<lambda>g. item_status g = s) out)))))
   \<and> (\<forall>gaps n. collectGaps1 ops dr = Inr (gaps, n) \<longrightarrow>
         map item_id gaps = map toString [1..<Suc (length gaps)])"
proof (intro conjI impI allI)
  assume "has_metadata dr"
  then show "\<exists>out. extractGapAnalysis1 ops dr = Inr out" by (rule extractGapAnalysis1_returns)
next
  fix gaps n
  assume "collectGaps1 ops dr = Inr (gaps, n)"
  from collectGaps1_result(1,2) [OF this]
  show "map item_id gaps = map toString [1..<Suc (length gaps)]" by simp
next
  fix out
  assume out: "extractGapAnalysis1 ops dr = Inr out"
  then obtain gaps n where c: "collectGaps1 ops dr = Inr (gaps, n)"
    and o: "out = take 10 (sort_by compareStatus gaps)"
    by (rule extractGapAnalysis1_Inr)
  note caps = collectGaps1_result(3) [OF c, unfolded caps_ok_def]
  have cm: "count_status x ''missing'' gaps \<le> 3" for x using caps by blast
  have cp: "count_status x ''partial'' gaps \<le> 2" for x using caps by blast
  have cc: "count_status x ''complete'' gaps \<le> 1" for x using caps by blast
  have known: "\<forall>g\<in>set gaps. known_status g" by (rule collectGaps1_result(4) [OF c])
  have "set (sort_by compareStatus gaps) = set gaps"
    by (rule mset_eq_setD) (rule mset_sort_by)
  then have sub: "set out \<subseteq> set gaps"
    unfolding o using set_take_subset [of 10 "sort_by compareStatus gaps"] by simp
  { fix cat
    have m: "count_status cat ''missing'' out \<le> 3"
      unfolding o
      by (rule order_trans [OF count_status_sorted_take]) (rule cm cp cc)
    have p: "count_status cat ''partial'' out \<le> 2"
      unfolding o
      by (rule order_trans [OF count_status_sorted_take]) (rule cm cp cc)
    have k: "count_status cat ''complete'' out \<le> 1"
      unfolding o
      by (rule order_trans [OF count_status_sorted_take]) (rule cm cp cc)
    have "\<forall>g\<in>set out. known_status g" using sub known by blast
    from category_total [OF this, of cat] m p k
    have "length (filter (\<lambda>g. item_category g = cat) out) \<le> 6" by simp
    note m p k this }
  note per_cat = this
  fix cat
  show "count_status cat ''missing'' out \<le> 3" by (rule per_cat)
  show "count_status cat ''partial'' out \<le> 2" by (rule per_cat)
  show "count_status cat ''complete'' out \<le> 1" by (rule per_cat)
  show "length (filter (\<lambda>g. item_category g = cat) out) \<le> 6" by (rule per_cat)
  have ids: "map idNumber (map item_id gaps) = [1..<Suc (length gaps)]"
    by (rule ids_of_collected [OF c])
  have dg: "distinct (map item_id gaps)"
  proof -
    have "distinct (map idNumber (map item_id gaps))" unfolding ids by (rule distinct_upt)
    then show ?thesis using distinct_map [of idNumber "map item_id gaps"] by blast
  qed
  have "distinct (map item_id (sort_by compareStatus gaps))"
  proof -
    have "mset (map item_id (sort_by compareStatus gaps)) = mset (map item_id gaps)"
      by (simp add: mset_sort_by)
    from mset_eq_imp_distinct_iff [OF this] dg show ?thesis by simp
  qed
  then have "distinct (take 10 (map item_id (sort_by compareStatus gaps)))"
    by (rule distinct_take)
  then show "distinct (map item_id out)"
    unfolding o by (simp only: take_map)
  fix s
  let ?P = "\<lambda>g. item_status g = s"
  have "sorted_wrt (<) (map idNumber (map item_id gaps))" unfolding ids by (rule sorted_wrt_upt)
  then have "sorted_wrt (\<lambda>a b. idNumber (item_id a) < idNumber (item_id b)) gaps"
    by (simp add: sorted_wrt_map)
  then have "sorted_wrt (\<lambda>a b. idNumber (item_id a) < idNumber (item_id b)) (filter ?P gaps)"
    by (rule sorted_wrt_filter)
  moreover have "prefix (filter ?P out) (filter ?P gaps)"
    unfolding o using filter_take_prefix [of ?P 10 "sort_by compareStatus gaps"]
    by (simp add: sort_by_stable)
  ultimately have "sorted_wrt (\<lambda>a b. idNumber (item_id a) < idNumber (item_id b)) (filter ?P out)"
    by (auto simp: prefix_def sorted_wrt_append)
  then show "sorted_wrt (<) (map idNumber (map item_id (filter ?P out)))"
    by (simp add: sorted_wrt_map)
qed

theorem extractGapAnalysis1_caps_and_ids_witness:
  "has_metadata sample_mixed
   \<and> extractGapAnalysis1 sample_ops sample_mixed = Inr sample_mixed_out
   \<and> count_status ''environmental'' ''missing'' sample_mixed_out \<le> 3
   \<and> length (filter (\<lambda>g. item_category g = ''environmental'') sample_mixed_out) \<le> 6
   \<and> distinct (map item_id sample_mixed_out)
   \<and> sorted_wrt (<) (map idNumber (map item_id
         (filter (\<lambda>g. item_status g = ''missing'') sample_mixed_out)))
   \<and> map item_id sample_mixed_gaps = map toString [1..<Suc (length sample_mixed_gaps)]"
  using extractGapAnalysis1_caps_and_ids [of sample_mixed sample_ops]
    sample_mixed_has_metadata sample_mixed_extract sample_mixed_collect
  by blast

text \<open>
  C1 as stated fails. On \<^const>\<open>sample_mixed\<close> the first listing returns the ids 1, 3, 2 in
  this order, which do not increase; on \<^const>\<open>sample_seven\<close> the second listing, which
  neither caps nor numbers its rows, returns seven rows of one category.
\<close>

theorem gap_ids_and_caps_counterexample:
  "map_sum id (map item_id) (extractGapAnalysis1 sample_ops sample_mixed) = Inr [''1'', ''3'', ''2'']
   \<and> \<not> sorted_wrt (<) (map idNumber [''1'', ''3'', ''2''])
   \<and> map category (extractGapAnalysis2 sample_ops sample_seven) = replicate 7 ''environmental''
   \<and> map status (extractGapAnalysis2 sample_ops sample_seven) = replicate 7 ''MISSING''"
  by code_simp

text \<open>
  C2. The status sort of the aggregator is applied to the items collected over all
  categories: every item has one of the three statuses, the sorted list is a permutation
  of the collected one with no partial or complete item in front of a missing one and no
  complete item in front of a partial one, the items of one status keep their relative
  order, and the returned first ten are ordered the same way.
\<close>

theorem status_sort_ordered_and_stable:
  assumes "collectGaps1 ops dr = Inr (gaps, n)"
  shows "list_all known_status gaps
       \<and> sorted_wrt precedes_ok (sort_by compareStatus gaps)
       \<and> mset (sort_by compareStatus gaps) = mset gaps
       \<and> (\<forall>s. filter (\<lambda>g. item_status g = s) (sort_by compareStatus gaps)
              = filter (\<lambda>g. item_status g = s) gaps)
       \<and> extractGapAnalysis1 ops dr = Inr (take 10 (sort_by compareStatus gaps))
       \<and> sorted_wrt precedes_ok (take 10 (sort_by compareStatus gaps))"
proof -
  have known: "\<forall>g\<in>set gaps. known_status g" by (rule collectGaps1_result(4) [OF assms])
  then have 1: "list_all known_status gaps" by (simp add: list_all_iff)
  have 2: "sorted_wrt precedes_ok (sort_by compareStatus gaps)"
    by (rule sorted_sort_by [OF known])
  have 3: "mset (sort_by compareStatus gaps) = mset gaps" by (rule mset_sort_by)
  have 4: "\<forall>s. filter (\<lambda>g. item_status g = s) (sort_by compareStatus gaps)
              = filter (\<lambda>g. item_status g = s) gaps"
    by (simp add: sort_by_stable)
  have 5: "extractGapAnalysis1 ops dr = Inr (take 10 (sort_by compareStatus gaps))"
    using assms by (simp add: extractGapAnalysis1_def)
  have 6: "sorted_wrt precedes_ok (take 10 (sort_by compareStatus gaps))"
    using 2 by (rule sorted_wrt_take)
  from 1 2 3 4 5 6 show ?thesis by blast
qed

theorem status_sort_ordered_and_stable_witness:
  "collectGaps1 sample_ops sample_mixed = Inr (sample_mixed_gaps, 4)
   \<and> map item_status sample_mixed_gaps = [''missing'', ''partial'', ''missing'']
   \<and> map item_status (sort_by compareStatus sample_mixed_gaps) = [''missing'', ''missing'', ''partial'']
   \<and> sorted_wrt precedes_ok (sort_by compareStatus sample_mixed_gaps)
   \<and> filter (\<lambda>g. item_status g = ''missing'') (sort_by compareStatus sample_mixed_gaps)
       = filter (\<lambda>g. item_status g = ''missing'') sample_mixed_gaps
   \<and> extractGapAnalysis1 sample_ops sample_mixed
       = Inr (take 10 (sort_by compareStatus sample_mixed_gaps))"
proof -
  have a: "map item_status sample_mixed_gaps = [''missing'', ''partial'', ''missing'']"
    by code_simp
  have b: "map item_status (sort_by compareStatus sample_mixed_gaps) = [''missing'', ''missing'', ''partial'']"
    by code_simp
  from status_sort_ordered_and_stable [OF sample_mixed_collect] a b sample_mixed_collect
  show ?thesis by blast
qed

subsection \<open>The display subset\<close>

lemma processCategory2_append:
  "processCategory2 ops dr acc c = acc @ processCategory2 ops dr [] c"
  by (simp add: processCategory2_def split: option.splits)

lemma foldl_processCategory2:
  "foldl (processCategory2 ops dr) acc cs = acc @ concat (map (processCategory2 ops dr []) cs)"
proof (induction cs arbitrary: acc)
  case Nil
  show ?case by simp
next
  case (Cons c cs)
  have "foldl (processCategory2 ops dr) acc (c # cs)
        = foldl (processCategory2 ops dr) (processCategory2 ops dr acc c) cs" by simp
  also have "\<dots> = processCategory2 ops dr acc c @ concat (map (processCategory2 ops dr []) cs)"
    by (rule Cons.IH)
  also have "\<dots> = acc @ concat (map (processCategory2 ops dr []) (c # cs))"
    by (subst processCategory2_append) simp
  finally show ?case .
qed

lemma extractGapAnalysis2_concat:
  "extractGapAnalysis2 ops dr = concat (map (processCategory2 ops dr []) categories)"
  unfolding extractGapAnalysis2_def by (simp add: foldl_processCategory2)

lemma makeBucket_Inr:
  "category_has_statistics dr k \<Longrightarrow> \<exists>b. makeBucket dr c t k = Inr b"
  by (auto simp: makeBucket_def extractCategoryStats_def category_has_statistics_def
      split: option.splits)

lemma makeBucket_Inl:
  "\<not> category_has_statistics dr k \<Longrightarrow> makeBucket dr c t k = Inl TypeError"
  by (auto simp: makeBucket_def extractCategoryStats_def category_has_statistics_def
      split: option.splits)

lemma formattedEsgData_Inr:
  assumes "has_statistics dr"
  shows "\<exists>b. formattedEsgData dr = Inr b"
proof -
  from assms have e: "category_has_statistics dr ''environmental''"
    and s: "category_has_statistics dr ''social''"
    and g: "category_has_statistics dr ''governance''"
    by (simp_all add: has_statistics_def categories_def)
  from makeBucket_Inr [OF e] obtain be
    where be: "makeBucket dr ''E'' ''Environmental'' ''environmental'' = Inr be" by blast
  from makeBucket_Inr [OF s] obtain bs
    where bs: "makeBucket dr ''S'' ''Social'' ''social'' = Inr bs" by blast
  from makeBucket_Inr [OF g] obtain bg
    where bg: "makeBucket dr ''G'' ''Governance'' ''governance'' = Inr bg" by blast
  from be bs bg show ?thesis by (simp add: formattedEsgData_def)
qed

lemma formattedEsgData_Inl:
  assumes "\<not> has_statistics dr"
  shows "formattedEsgData dr = Inl TypeError"
proof -
  have r: "(case x of Inl e \<Rightarrow> Inl e | Inr b \<Rightarrow> f b) = Inl TypeError"
    if "\<And>b. x = Inr b \<Longrightarrow> f b = Inl TypeError" for x :: "error + 'b" and f :: "'b \<Rightarrow> error + 'c"
    using that by (cases x) (auto intro: error.exhaust)
  from assms consider "\<not> category_has_statistics dr ''environmental''"
    | "\<not> category_has_statistics dr ''social''"
    | "\<not> category_has_statistics dr ''governance''"
    by (auto simp: has_statistics_def categories_def)
  then show ?thesis
  proof cases
    case 1
    then show ?thesis by (simp add: formattedEsgData_def makeBucket_Inl)
  next
    case 2
    show ?thesis
      unfolding formattedEsgData_def
      by (rule r) (simp add: makeBucket_Inl [OF 2])
  next
    case 3
    show ?thesis
      unfolding formattedEsgData_def
      by (rule r, rule r) (simp add: makeBucket_Inl [OF 3])
  qed
qed

lemma loadAnalysisResults2_loaded:
  assumes "has_statistics (results_of ad)"
  shows "completeGapAnalysis (loadAnalysisResults2 ops (Some ad) st)
           = extractGapAnalysis2 ops (results_of ad)"
    and "gapAnalysis (loadAnalysisResults2 ops (Some ad) st)
           = take 7 (extractGapAnalysis2 ops (results_of ad))"
proof -
  from formattedEsgData_Inr [OF assms] obtain b where "formattedEsgData (results_of ad) = Inr b"
    by blast
  then show "completeGapAnalysis (loadAnalysisResults2 ops (Some ad) st)
           = extractGapAnalysis2 ops (results_of ad)"
    and "gapAnalysis (loadAnalysisResults2 ops (Some ad) st)
           = take 7 (extractGapAnalysis2 ops (results_of ad))"
    by (simp_all add: loadAnalysisResults2_def Let_def results_of_def)
qed

lemma loadAnalysisResults2_swallowed:
  assumes "\<not> has_statistics (results_of ad)"
  shows "completeGapAnalysis (loadAnalysisResults2 ops (Some ad) st) = completeGapAnalysis st"
    and "gapAnalysis (loadAnalysisResults2 ops (Some ad) st) = gapAnalysis st"
    and "esgData (loadAnalysisResults2 ops (Some ad) st) = esgData st"
  using formattedEsgData_Inl [OF assms]
  by (simp_all add: loadAnalysisResults2_def Let_def results_of_def)

lemma categoryRows_order:
  "map (\<lambda>r. (status r, regulationId r)) (categoryRows ops c cd gp)
   = map (\<lambda>r. (''MISSING'', shown_id r)) (or_empty (uncovered_regulations gp))
     @ map (\<lambda>r. (''PARTIAL'', shown_id r)) (or_empty (partially_covered_regulations gp))
     @ map (\<lambda>r. (''COVERED'', shown_id r)) (or_empty (covered_regulations gp))"
  by (simp add: categoryRows_def makeRow_def Let_def shown_id_def comp_def)

lemma sample_analysis_statistics: "has_statistics (results_of sample_analysis)"
  by code_simp

lemma sample_no_statistics_fails: "\<not> has_statistics (results_of sample_no_statistics)"
  by code_simp

text \<open>
  C3 (amended). In the second listing, which keeps a display subset next to the complete
  list, the display subset is the first 7 records of the complete list, and the complete
  list is in aggregation order with no status sort applied: the rows of environmental, of
  social and of governance one after the other, and inside a category one row per
  uncovered regulation (status \<open>MISSING\<close>), then one per partly covered regulation
  (\<open>PARTIAL\<close>), then one per covered regulation (\<open>COVERED\<close>), each group in received
  order; a category that is absent or has no gap analysis gives no row. This holds when
  every category with a gap analysis carries its coverage statistics; otherwise the page
  swallows the exception and leaves both lists as they were (empty on a fresh page). The
  aggregator of the first listing, which does sort by status, returns for display the
  first 10 records of the sorted list.
\<close>

theorem display_subset_unsorted_prefix:
  "gapAnalysis (loadAnalysisResults2 ops analysisData initialDashboard)
     = take 7 (completeGapAnalysis (loadAnalysisResults2 ops analysisData initialDashboard))
   \<and> (has_statistics (results_of ad) \<longrightarrow>
         completeGapAnalysis (loadAnalysisResults2 ops (Some ad) st)
           = processCategory2 ops (results_of ad) [] ''environmental''
             @ processCategory2 ops (results_of ad) [] ''social''
             @ processCategory2 ops (results_of ad) [] ''governance''
       \<and> gapAnalysis (loadAnalysisResults2 ops (Some ad) st)
           = take 7 (completeGapAnalysis (loadAnalysisResults2 ops (Some ad) st)))
   \<and> (\<not> has_statistics (results_of ad) \<longrightarrow>
         completeGapAnalysis (loadAnalysisResults2 ops (Some ad) st) = completeGapAnalysis st
       \<and> gapAnalysis (loadAnalysisResults2 ops (Some ad) st) = gapAnalysis st)
   \<and> (\<forall>c cd gp. dr c = Some cd \<longrightarrow> gap_analysis cd = Some gp \<longrightarrow>
         map (\<lambda>r. (status r, regulationId r)) (processCategory2 ops dr [] c)
         = map (\<lambda>r. (''MISSING'', shown_id r)) (or_empty (uncovered_regulations gp))
           @ map (\<lambda>r. (''PARTIAL'', shown_id r)) (or_empty (partially_covered_regulations gp))
           @ map (\<lambda>r. (''COVERED'', shown_id r)) (or_empty (covered_regulations gp)))
   \<and> (\<forall>c. dr c = None \<or> (\<exists>cd. dr c = Some cd \<and> gap_analysis cd = None) \<longrightarrow>
         processCategory2 ops dr [] c = [])
   \<and> (\<forall>dr1 out. extractGapAnalysis1 ops dr1 = Inr out \<longrightarrow>
         (\<exists>gaps n. collectGaps1 ops dr1 = Inr (gaps, n)
            \<and> out = take 10 (sort_by compareStatus gaps)))"
proof (intro conjI allI impI)
  show "gapAnalysis (loadAnalysisResults2 ops analysisData initialDashboard)
     = take 7 (completeGapAnalysis (loadAnalysisResults2 ops analysisData initialDashboard))"
  proof (cases analysisData)
    case None
    then show ?thesis by (simp add: loadAnalysisResults2_def initialDashboard_def)
  next
    case (Some a)
    show ?thesis
    proof (cases "has_statistics (results_of a)")
      case True
      from loadAnalysisResults2_loaded [OF True] Some show ?thesis by simp
    next
      case False
      from loadAnalysisResults2_swallowed(1,2) [OF False] Some show ?thesis
        by (simp add: initialDashboard_def)
    qed
  qed
next
  assume h: "has_statistics (results_of ad)"
  from loadAnalysisResults2_loaded(1) [OF h]
  show "completeGapAnalysis (loadAnalysisResults2 ops (Some ad) st)
           = processCategory2 ops (results_of ad) [] ''environmental''
             @ processCategory2 ops (results_of ad) [] ''social''
             @ processCategory2 ops (results_of ad) [] ''governance''"
    by (simp add: extractGapAnalysis2_concat categories_def)
  from loadAnalysisResults2_loaded [OF h]
  show "gapAnalysis (loadAnalysisResults2 ops (Some ad) st)
           = take 7 (completeGapAnalysis (loadAnalysisResults2 ops (Some ad) st))"
    by simp
next
  assume h: "\<not> has_statistics (results_of ad)"
  from loadAnalysisResults2_swallowed(1) [OF h]
  show "completeGapAnalysis (loadAnalysisResults2 ops (Some ad) st) = completeGapAnalysis st" .
  from loadAnalysisResults2_swallowed(2) [OF h]
  show "gapAnalysis (loadAnalysisResults2 ops (Some ad) st) = gapAnalysis st" .
next
  fix c cd gp
  assume "dr c = Some cd" "gap_analysis cd = Some gp"
  then have "processCategory2 ops dr [] c = categoryRows ops c cd gp"
    by (simp add: processCategory2_def)
  then show "map (\<lambda>r. (status r, regulationId r)) (processCategory2 ops dr [] c)
         = map (\<lambda>r. (''MISSING'', shown_id r)) (or_empty (uncovered_regulations gp))
           @ map (\<lambda>r. (''PARTIAL'', shown_id r)) (or_empty (partially_covered_regulations gp))
           @ map (\<lambda>r. (''COVERED'', shown_id r)) (or_empty (covered_regulations gp))"
    by (simp only: categoryRows_order)
next
  fix c
  assume "dr c = None \<or> (\<exists>cd. dr c = Some cd \<and> gap_analysis cd = None)"
  then show "processCategory2 ops dr [] c = []"
    by (auto simp: processCategory2_def)
next
  fix dr1 :: "'a DetailedResults" and out
  assume "extractGapAnalysis1 ops dr1 = Inr out"
  then show "\<exists>gaps n. collectGaps1 ops dr1 = Inr (gaps, n)
            \<and> out = take 10 (sort_by compareStatus gaps)"
    by (rule extractGapAnalysis1_Inr) blast
qed

theorem display_subset_unsorted_prefix_witness:
  "has_statistics (results_of sample_analysis)
   \<and> map (\<lambda>r. (status r, regulationId r)) (completeGapAnalysis sample_dashboard)
       = [(''MISSING'', ''E1''), (''PARTIAL'', ''E2''), (''MISSING'', ''S1'')]
   \<and> gapAnalysis sample_dashboard = take 7 (completeGapAnalysis sample_dashboard)
   \<and> map (\<lambda>r. (status r, regulationId r)) (processCategory2 sample_ops sample_full [] ''social'')
       = [(''MISSING'', ''S1''), (''MISSING'', ''S2''), (''MISSING'', ''S3''), (''MISSING'', ''S4''),
          (''PARTIAL'', ''S5''), (''PARTIAL'', ''S6''), (''PARTIAL'', ''S7''),
          (''COVERED'', ''S8''), (''COVERED'', ''S9'')]
   \<and> processCategory2 sample_ops sample_mixed [] ''governance'' = []
   \<and> \<not> has_statistics (results_of sample_no_statistics)
   \<and> completeGapAnalysis (loadAnalysisResults2 sample_ops (Some sample_no_statistics) initialDashboard) = []
   \<and> gapAnalysis (loadAnalysisResults2 sample_ops (Some sample_no_statistics) initialDashboard) = []
   \<and> extractGapAnalysis1 sample_ops sample_mixed = Inr sample_mixed_out
   \<and> sample_mixed_out = take 10 (sort_by compareStatus sample_mixed_gaps)"
proof -
  note t = display_subset_unsorted_prefix [of sample_ops "Some sample_analysis" sample_analysis
      initialDashboard sample_full]
  note u = display_subset_unsorted_prefix [of sample_ops "Some sample_no_statistics"
      sample_no_statistics initialDashboard sample_mixed]
  have a: "map (\<lambda>r. (status r, regulationId r)) (completeGapAnalysis sample_dashboard)
       = [(''MISSING'', ''E1''), (''PARTIAL'', ''E2''), (''MISSING'', ''S1'')]"
    by code_simp
  from t have b: "gapAnalysis sample_dashboard = take 7 (completeGapAnalysis sample_dashboard)"
    unfolding sample_dashboard_def by blast
  have soc: "sample_full ''social'' = Some (sample_category (map sample_reg [''S1'', ''S2'', ''S3'', ''S4''])
          (map sample_reg [''S5'', ''S6'', ''S7'']) (map sample_reg [''S8'', ''S9'']))"
    by (simp add: sample_full_def)
  obtain gp where gp: "gap_analysis (sample_category (map sample_reg [''S1'', ''S2'', ''S3'', ''S4''])
          (map sample_reg [''S5'', ''S6'', ''S7'']) (map sample_reg [''S8'', ''S9''])) = Some gp"
      "or_empty (uncovered_regulations gp) = map sample_reg [''S1'', ''S2'', ''S3'', ''S4'']"
      "or_empty (partially_covered_regulations gp) = map sample_reg [''S5'', ''S6'', ''S7'']"
      "or_empty (covered_regulations gp) = map sample_reg [''S8'', ''S9'']"
    by (simp add: sample_category_def or_empty_def)
  have sid: "shown_id (sample_reg x) = x" if "x \<noteq> []" for x
    using that by (simp add: shown_id_def sample_reg_def present_def or_str_def)
  from t soc gp(1)
  have "map (\<lambda>r. (status r, regulationId r)) (processCategory2 sample_ops sample_full [] ''social'')
         = map (\<lambda>r. (''MISSING'', shown_id r)) (or_empty (uncovered_regulations gp))
           @ map (\<lambda>r. (''PARTIAL'', shown_id r)) (or_empty (partially_covered_regulations gp))
           @ map (\<lambda>r. (''COVERED'', shown_id r)) (or_empty (covered_regulations gp))"
    by blast
  then have c: "map (\<lambda>r. (status r, regulationId r)) (processCategory2 sample_ops sample_full [] ''social'')
       = [(''MISSING'', ''S1''), (''MISSING'', ''S2''), (''MISSING'', ''S3''), (''MISSING'', ''S4''),
          (''PARTIAL'', ''S5''), (''PARTIAL'', ''S6''), (''PARTIAL'', ''S7''),
          (''COVERED'', ''S8''), (''COVERED'', ''S9'')]"
    unfolding gp(2,3,4) by (simp add: sid)
  have "sample_mixed ''governance'' = None" by (simp add: sample_mixed_def)
  with u have d: "processCategory2 sample_ops sample_mixed [] ''governance'' = []" by blast
  from u sample_no_statistics_fails
  have e: "completeGapAnalysis (loadAnalysisResults2 sample_ops (Some sample_no_statistics) initialDashboard)
           = completeGapAnalysis (initialDashboard :: nat Dashboard)"
    and f: "gapAnalysis (loadAnalysisResults2 sample_ops (Some sample_no_statistics) initialDashboard)
           = gapAnalysis (initialDashboard :: nat Dashboard)"
    by blast+
  from t sample_mixed_extract obtain gaps n where
    g: "collectGaps1 sample_ops sample_mixed = Inr (gaps, n)"
       "sample_mixed_out = take 10 (sort_by compareStatus gaps)"
    by blast
  from g(1) sample_mixed_collect have "gaps = sample_mixed_gaps" by simp
  with a b c d e f g(2) sample_mixed_extract sample_analysis_statistics sample_no_statistics_fails
  show ?thesis by (simp add: initialDashboard_def)
qed

text \<open>
  C3 as stated fails. On \<^const>\<open>sample_dashboard\<close> the display subset shows a partial row of
  the first category in front of a missing row of the second; on \<^const>\<open>sample_full\<close> the
  first listing shows ten items.
\<close>

theorem display_subset_counterexample:
  "map status (completeGapAnalysis sample_dashboard) = [''MISSING'', ''PARTIAL'', ''MISSING'']
   \<and> map status (gapAnalysis sample_dashboard) = [''MISSING'', ''PARTIAL'', ''MISSING'']
   \<and> map category (gapAnalysis sample_dashboard) = [''environmental'', ''environmental'', ''social'']
   \<and> map_sum id (map item_id) (extractGapAnalysis1 sample_ops sample_full)
       = Inr [''1'', ''2'', ''3'', ''7'', ''8'', ''9'', ''13'', ''14'', ''15'', ''4'']"
  by code_simp

subsection \<open>Disclosure sampler\<close>

text \<open>
  C4. When fewer than 4 of the received disclosure matches are strong, the sampler returns
  the excerpts of the first 4 matches in received order, strong or not.
\<close>

theorem extractTopDisclosures_fallback:
  assumes "disclosure_to_regulation_matches cd = Some ms"
    and "length (filter is_strong_match ms) < 4"
  shows "extractTopDisclosures (Some cd)
         = map (\<lambda>m. truncateText (disclosure_text m) 80) (take 4 ms)"
  using assms by (simp add: extractTopDisclosures_def Let_def)

theorem extractTopDisclosures_fallback_witness:
  "disclosure_to_regulation_matches (sample_disclosures sample_matches) = Some sample_matches
   \<and> length (filter is_strong_match sample_matches) = 2
   \<and> extractTopDisclosures (Some (sample_disclosures sample_matches))
       = [''water use'', ''emissions'', ''waste'', ''energy'']"
proof -
  have a: "disclosure_to_regulation_matches (sample_disclosures sample_matches) = Some sample_matches"
    by (simp add: sample_disclosures_def)
  have b: "length (filter is_strong_match sample_matches) = 2" by code_simp
  have c: "map (\<lambda>m. truncateText (disclosure_text m) 80) (take 4 sample_matches)
           = [''water use'', ''emissions'', ''waste'', ''energy'']" by code_simp
  from b have "length (filter is_strong_match sample_matches) < 4" by simp
  from extractTopDisclosures_fallback [OF a this] a b c show ?thesis by simp
qed

text \<open>The sampler answers with the empty list exactly for an empty sequence of matches.\<close>

lemma extractTopDisclosures_empty_iff:
  "extractTopDisclosures (Some cd) = [] \<longleftrightarrow> disclosure_to_regulation_matches cd = Some []"
proof (cases "disclosure_to_regulation_matches cd")
  case None
  then show ?thesis by (simp add: extractTopDisclosures_def)
next
  case (Some ms)
  show ?thesis
  proof (cases "length (filter is_strong_match ms) < 4")
    case True
    with Some show ?thesis by (simp add: extractTopDisclosures_def Let_def)
  next
    case False
    then have "ms \<noteq> []" by auto
    with False Some show ?thesis by (auto simp: extractTopDisclosures_def Let_def)
  qed
qed

text \<open>
  C5 asks for a one-element sentinel list whenever there are no matches. With an empty
  sequence of matches the sampler returns the empty list.
\<close>

theorem extractTopDisclosures_empty_matches:
  "extractTopDisclosures (Some (sample_disclosures [])) = []"
  by code_simp

subsection \<open>Report cache\<close>

text \<open>
  C6. A stored report is served exactly when its age is under 3600000 ms (one hour);
  loading then leaves the slot as it is and shows the stored report, and loading at an
  age of an hour or more generates a report that replaces it.
\<close>

theorem loadOrGenerateReport_freshness:
  assumes "stored_at r = Some t"
  shows "(cachedReport now (Some r) = Some r \<longleftrightarrow> now - t < 3600000)
       \<and> (now - t < 3600000 \<longrightarrow>
            loadOrGenerateReport now genTime response (Some r, page)
            = (Some r, page\<lparr>reportData := Some r, page_error := None\<rparr>))
       \<and> (3600000 \<le> now - t \<longrightarrow>
            cachedReport now (Some r) = None
          \<and> loadOrGenerateReport now genTime (Inr data) (Some r, page)
            = (Some \<lparr>payload = data, stored_at = Some genTime\<rparr>,
               page\<lparr>reportData := Some \<lparr>payload = data, stored_at = Some genTime\<rparr>,
                     page_error := None\<rparr>))"
  using assms
  by (auto simp: cachedReport_def loadOrGenerateReport_def generateReport_def Let_def)

theorem loadOrGenerateReport_freshness_witness:
  "generateReport 1000 (Inr ''first report'') (None, sample_page)
     = Inr (Some sample_stored, sample_page\<lparr>reportData := Some sample_stored\<rparr>)
   \<and> stored_at sample_stored = Some 1000
   \<and> cachedReport (1000 + 59 * 60000) (Some sample_stored) = Some sample_stored
   \<and> loadOrGenerateReport (1000 + 59 * 60000) (1000 + 59 * 60000 + 5) (Inr ''second report'')
        (Some sample_stored, sample_page)
      = (Some sample_stored, sample_page\<lparr>reportData := Some sample_stored, page_error := None\<rparr>)
   \<and> cachedReport (1000 + 61 * 60000) (Some sample_stored) = None
   \<and> loadOrGenerateReport (1000 + 61 * 60000) (1000 + 61 * 60000 + 5) (Inr ''second report'')
        (Some sample_stored, sample_page)
      = (Some \<lparr>payload = ''second report'', stored_at = Some (1000 + 61 * 60000 + 5)\<rparr>,
         sample_page\<lparr>reportData :=
             Some \<lparr>payload = ''second report'', stored_at = Some (1000 + 61 * 60000 + 5)\<rparr>,
           page_error := None\<rparr>)"
proof -
  have g: "generateReport 1000 (Inr ''first report'') (None, sample_page)
     = Inr (Some sample_stored, sample_page\<lparr>reportData := Some sample_stored\<rparr>)"
    by (simp add: generateReport_def sample_stored_def Let_def)
  have s: "stored_at sample_stored = Some 1000" by (simp add: sample_stored_def)
  note a = loadOrGenerateReport_freshness [OF s, of "1000 + 59 * 60000" "1000 + 59 * 60000 + 5"
      "Inr ''second report''" sample_page "''second report''"]
  note b = loadOrGenerateReport_freshness [OF s, of "1000 + 61 * 60000" "1000 + 61 * 60000 + 5"
      "Inr ''second report''" sample_page "''second report''"]
  have fresh: "(1000 + 59 * 60000 :: int) - 1000 < 3600000" by simp
  have stale: "(3600000 :: int) \<le> 1000 + 61 * 60000 - 1000" by simp
  from a fresh have a1: "cachedReport (1000 + 59 * 60000) (Some sample_stored) = Some sample_stored"
    and a2: "loadOrGenerateReport (1000 + 59 * 60000) (1000 + 59 * 60000 + 5) (Inr ''second report'')
        (Some sample_stored, sample_page)
      = (Some sample_stored, sample_page\<lparr>reportData := Some sample_stored, page_error := None\<rparr>)"
    by blast+
  from b stale have b1: "cachedReport (1000 + 61 * 60000) (Some sample_stored) = None"
    and b2: "loadOrGenerateReport (1000 + 61 * 60000) (1000 + 61 * 60000 + 5) (Inr ''second report'')
        (Some sample_stored, sample_page)
      = (Some \<lparr>payload = ''second report'', stored_at = Some (1000 + 61 * 60000 + 5)\<rparr>,
         sample_page\<lparr>reportData :=
             Some \<lparr>payload = ''second report'', stored_at = Some (1000 + 61 * 60000 + 5)\<rparr>,
           page_error := None\<rparr>)"
    by blast+
  from g s a1 a2 b1 b2 show ?thesis by blast
qed

subsection \<open>Markdown\<close>

text \<open>
  C7 (amended). For the text \<^const>\<open>sample_markdown\<close> the interactive view is one section
  titled \<open>Title\<close> with one paragraph that holds the bold span \<open>Bold\<close> and the two list items
  \<open>item1\<close> and \<open>item2\<close>; the document is the heading, a line break, the bold line, a line
  break, and the two list items with a line break between them.
\<close>

theorem markdown_example_rendering:
  "renderMarkdown (Some sample_markdown)
     = Some [Some (Section (Some ''Title'')
               [Paragraph [Text [], Strong ''Bold'', Text '' text''],
                ListItem ''item1'', ListItem ''item2''])]
   \<and> convertMarkdownToHTML (Some sample_markdown)
     = ''<h3>Title</h3><br><strong>Bold</strong> text<br><li>item1</li><br><li>item2</li>''"
  by code_simp

text \<open>
  C7 as stated fails: the document is not the heading directly followed by the bold line
  and two adjacent list items.
\<close>

theorem markdown_document_counterexample:
  "convertMarkdownToHTML (Some sample_markdown)
     \<noteq> ''<h3>Title</h3>'' @ ''<strong>Bold</strong> text<br><li>item1</li><li>item2</li>''"
  by code_simp

subsection \<open>Workbook export\<close>

text \<open>
  C8. With an empty complete gap list the export shows the alert and writes no workbook;
  with a non-empty list it writes a workbook of the two sheets, the first with one row
  per record.
\<close>

theorem downloadExcel_refuses_empty:
  "downloadExcel currentYear md [] = Inl (Alert ''No gap analysis data available to download'')
   \<and> (items \<noteq> [] \<longrightarrow>
        (\<exists>wb. downloadExcel currentYear md items = Inr wb
           \<and> sheets wb = [(''Gap Analysis'',
                            RowSheet (excelData md items) [6, 15, 12, 20, 50, 20, 50, 15, 18, 12]),
                           (''Summary'', MetricSheet (summaryData md items) [30, 20])]
           \<and> length (excelData md items) = length items))"
  by (simp add: downloadExcel_def excelData_def)

theorem downloadExcel_refuses_empty_witness:
  "downloadExcel ''2026'' (pageMetadata sample_dashboard) [] 
     = Inl (Alert ''No gap analysis data available to download'')
   \<and> length (completeGapAnalysis sample_dashboard) = 3
   \<and> map_sum id (map fst \<circ> sheets)
        (downloadExcel ''2026'' (pageMetadata sample_dashboard) (completeGapAnalysis sample_dashboard))
     = Inr [''Gap Analysis'', ''Summary'']
   \<and> length (excelData (pageMetadata sample_dashboard) (completeGapAnalysis sample_dashboard)) = 3"
proof -
  have n: "length (completeGapAnalysis sample_dashboard) = 3" by code_simp
  then have ne: "completeGapAnalysis sample_dashboard \<noteq> []" by auto
  note t = downloadExcel_refuses_empty [of "''2026''" "pageMetadata sample_dashboard"
      "completeGapAnalysis sample_dashboard"]
  from t ne obtain wb where
    wb: "downloadExcel ''2026'' (pageMetadata sample_dashboard) (completeGapAnalysis sample_dashboard) = Inr wb"
        "map fst (sheets wb) = [''Gap Analysis'', ''Summary'']"
        "length (excelData (pageMetadata sample_dashboard) (completeGapAnalysis sample_dashboard))
         = length (completeGapAnalysis sample_dashboard)"
    by auto
  from t wb n show ?thesis by simp
qed

text \<open>Every row of the second listing carries an upper-case status, so the summary counts none.\<close>

lemma categoryRows_status:
  "r \<in> set (categoryRows ops cat cd gp) \<Longrightarrow> status r \<in> {''MISSING'', ''PARTIAL'', ''COVERED''}"
  by (auto simp: categoryRows_def makeRow_def Let_def)

lemma processCategory2_status:
  "r \<in> set (processCategory2 ops dr [] c) \<Longrightarrow> status r \<in> {''MISSING'', ''PARTIAL'', ''COVERED''}"
  by (auto simp: processCategory2_def split: option.splits dest!: categoryRows_status)

lemma extractGapAnalysis2_status:
  assumes "r \<in> set (extractGapAnalysis2 ops dr)"
  shows "status r \<in> {''MISSING'', ''PARTIAL'', ''COVERED''}"
proof -
  from assms obtain c where "r \<in> set (processCategory2 ops dr [] c)"
    unfolding extractGapAnalysis2_concat by auto
  then show ?thesis by (rule processCategory2_status)
qed

lemma summary_counts_zero:
  "drop 3 (summaryData md (extractGapAnalysis2 ops dr))
   = [(''Total Regulations Analyzed'', Num (length (extractGapAnalysis2 ops dr))),
      (''Missing Coverage'', Num 0), (''Partial Coverage'', Num 0), (''Complete Coverage'', Num 0)]"
proof -
  have "filter (\<lambda>g. status g = s) (extractGapAnalysis2 ops dr) = []"
    if "s \<notin> {''MISSING'', ''PARTIAL'', ''COVERED''}" for s
    using that extractGapAnalysis2_status [of _ ops dr] by (auto simp: filter_empty_conv)
  then have "filter (\<lambda>g. status g = ''missing'') (extractGapAnalysis2 ops dr) = []"
    "filter (\<lambda>g. status g = ''partial'') (extractGapAnalysis2 ops dr) = []"
    "filter (\<lambda>g. status g = ''complete'') (extractGapAnalysis2 ops dr) = []"
    by simp_all
  then show ?thesis by (simp add: summaryData_def)
qed

text \<open>
  C9 asks that the summary counts per status agree with the rows of the Gap Analysis
  sheet. On \<^const>\<open>sample_dashboard\<close> the sheet shows two rows with status \<open>MISSING\<close> and one
  with \<open>PARTIAL\<close>, and the summary counts 0 of each among 3 regulations.
\<close>

theorem summary_counts_on_sample:
  "map Status (excelData (pageMetadata sample_dashboard) (completeGapAnalysis sample_dashboard))
     = [''MISSING'', ''PARTIAL'', ''MISSING'']
   \<and> drop 3 (summaryData (pageMetadata sample_dashboard) (completeGapAnalysis sample_dashboard))
     = [(''Total Regulations Analyzed'', Num 3), (''Missing Coverage'', Num 0),
        (''Partial Coverage'', Num 0), (''Complete Coverage'', Num 0)]"
  by code_simp

subsection \<open>Excerpts\<close>

text \<open>
  C10. For a character budget \<open>n\<close> (a non-negative count), \<open>truncateText\<close> returns a
  non-empty string of length at most \<open>n\<close> unchanged, returns the first \<open>n\<close> characters
  followed by \<open>...\<close> (length \<open>n + 3\<close>) for a longer string, and returns the sentinel
  \<open>No text available\<close> for a missing or empty text.
\<close>

theorem truncateText_spec:
  assumes "0 \<le> n"
  shows "(s \<noteq> [] \<and> int (length s) \<le> n \<longrightarrow> truncateText (Some s) n = s)
       \<and> (n < int (length s) \<longrightarrow>
            truncateText (Some s) n = take (nat n) s @ ''...''
          \<and> length (truncateText (Some s) n) = nat n + 3)
       \<and> truncateText None n = ''No text available''
       \<and> truncateText (Some []) n = ''No text available''"
  using assms by (auto simp: truncateText_def)

theorem truncateText_spec_witness:
  "truncateText (Some ''abcdefgh'') 5 = ''abcde...''
   \<and> length (truncateText (Some ''abcdefgh'') 5) = 8
   \<and> truncateText (Some ''abc'') 5 = ''abc''
   \<and> truncateText None 5 = ''No text available''
   \<and> truncateText (Some []) 5 = ''No text available''"
  using truncateText_spec [of 5 "''abcdefgh''"] truncateText_spec [of 5 "''abc''"]
  by simp

end
